theory Spec2Isabelle
  imports Main "HOL-Library.AList" "HOL-Library.Sublist" "HOL-Library.Multiset"
begin

section \<open>Path strings (os.path on POSIX)\<close>

text \<open>
  The script builds every path with \<open>os.path.join\<close> and \<open>os.path.relpath\<close> on strings.
  They are modelled on strings too, after \<open>posixpath\<close>: a second argument that starts
  with a slash replaces the first, and \<open>relpath\<close> compares the normalised absolute forms.
\<close>

definition isabs :: "string \<Rightarrow> bool" where
  "isabs p = (case p of [] \<Rightarrow> False | c # _ \<Rightarrow> c = CHR ''/'')"

definition os_path_join :: "string \<Rightarrow> string \<Rightarrow> string" where
  "os_path_join a b =
     (if isabs b then b
      else if a = [] \<or> last a = CHR ''/'' then a @ b
      else a @ ''/'' @ b)"

text \<open>\<open>p.split('/')\<close>: never the empty list, \<open>''.split('/') = ['']\<close>.\<close>

fun str_split :: "string \<Rightarrow> string list" where
  "str_split [] = [[]]"
| "str_split (c # cs) =
     (if c = CHR ''/'' then [] # str_split cs
      else (case str_split cs of [] \<Rightarrow> [[c]] | w # ws \<Rightarrow> (c # w) # ws))"

text \<open>\<open>sep.join(xs)\<close>.\<close>

fun str_join :: "string \<Rightarrow> string list \<Rightarrow> string" where
  "str_join s [] = []"
| "str_join s [x] = x"
| "str_join s (x # y # ys) = x @ s @ str_join s (y # ys)"

text \<open>One round of the loop of \<open>normpath\<close> over the components.\<close>

definition norm_step :: "bool \<Rightarrow> string \<Rightarrow> string list \<Rightarrow> string list" where
  "norm_step initial_slashes c new_comps =
     (if c = [] \<or> c = ''.'' then new_comps
      else if c \<noteq> ''..'' \<or> (\<not> initial_slashes \<and> new_comps = [])
              \<or> (new_comps \<noteq> [] \<and> last new_comps = ''..'')
           then new_comps @ [c]
      else if new_comps \<noteq> [] then butlast new_comps
      else new_comps)"

definition normpath :: "string \<Rightarrow> string" where
  "normpath path =
     (let initial_slashes =
            (if isabs path
             then (if take 2 path = ''//'' \<and> take 3 path \<noteq> ''///'' then 2 else 1)
             else (0::nat));
          new_comps = fold (norm_step (0 < initial_slashes)) (str_split path) [];
          p = replicate initial_slashes CHR ''/'' @ str_join ''/'' new_comps
      in if p = [] then ''.'' else p)"

definition abspath :: "string \<Rightarrow> string \<Rightarrow> string" where
  "abspath cwd path = normpath (if isabs path then path else os_path_join cwd path)"

fun commonprefix :: "string list \<Rightarrow> string list \<Rightarrow> string list" where
  "commonprefix (x # xs) (y # ys) = (if x = y then x # commonprefix xs ys else [])"
| "commonprefix _ _ = []"

text \<open>
  \<open>os.path.relpath(path, start)\<close>. It raises ValueError on an empty \<open>path\<close>; the script
  calls it on a join whose first argument ends in \<open>python\<close>, which is never empty.
\<close>

definition relpath :: "string \<Rightarrow> string \<Rightarrow> string \<Rightarrow> string" where
  "relpath cwd path start =
     (let start_list = filter (\<lambda>x. x \<noteq> []) (str_split (abspath cwd start));
          path_list = filter (\<lambda>x. x \<noteq> []) (str_split (abspath cwd path));
          i = length (commonprefix start_list path_list);
          rel_list = replicate (length start_list - i) ''..'' @ drop i path_list
      in case rel_list of [] \<Rightarrow> ''.'' | r # rs \<Rightarrow> foldl os_path_join r rs)"

section \<open>The file system\<close>

text \<open>
  A file holds bytes, or is a zip archive given by its entries (archive name and data of
  each member, in the order written): the compressed encoding is not modelled. A directory
  is the list of its entries in listing order. The list is read as the finite map it
  denotes: a name no directory can hold (empty, \<open>.\<close>, \<open>..\<close>, or with a slash) is not
  there, and of two entries with one name the first counts. There are no symbolic links
  and no permission bits.
\<close>

datatype fdata = Bytes string | ZipData "(string \<times> fdata) list"

datatype node = File fdata | Dir "(string \<times> node) list"

definition valid_name :: "string \<Rightarrow> bool" where
  "valid_name n = (n \<noteq> [] \<and> n \<noteq> ''.'' \<and> n \<noteq> ''..'' \<and> CHR ''/'' \<notin> set n)"

definition entries :: "(string \<times> node) list \<Rightarrow> (string \<times> node) list" where
  "entries kids = AList.clearjunk (filter (\<lambda>e. valid_name (fst e)) kids)"

fun lookup :: "node \<Rightarrow> string list \<Rightarrow> node option" where
  "lookup n [] = Some n"
| "lookup (File d) (c # cs) = None"
| "lookup (Dir kids) (c # cs) =
     (case map_of (entries kids) c of None \<Rightarrow> None | Some ch \<Rightarrow> lookup ch cs)"

text \<open>Store (\<open>Some\<close>) or remove (\<open>None\<close>) the node at a path whose parent directory exists.\<close>

fun put :: "node \<Rightarrow> string list \<Rightarrow> node option \<Rightarrow> node" where
  "put n [] v = (case v of None \<Rightarrow> n | Some n' \<Rightarrow> n')"
| "put (File d) (c # cs) v = File d"
| "put (Dir kids) [c] v =
     Dir (case v of None \<Rightarrow> AList.delete c kids | Some n' \<Rightarrow> AList.update c n' kids)"
| "put (Dir kids) (c # cs) v =
     (case map_of (entries kids) c of
        None \<Rightarrow> Dir kids
      | Some ch \<Rightarrow> Dir (AList.update c (put ch cs v) kids))"

definition is_dir :: "node \<Rightarrow> string list \<Rightarrow> bool" where
  "is_dir r cs = (case lookup r cs of Some (Dir _) \<Rightarrow> True | _ \<Rightarrow> False)"

text \<open>
  The kernel's path walk over the components of a path string, from the directory
  \<open>cur\<close>: every component is looked up in a directory that exists, \<open>..\<close> is the parent.
  The result is the path from the root, whose last name may be absent.
\<close>

fun walk_comps :: "node \<Rightarrow> string list \<Rightarrow> string list \<Rightarrow> string list option" where
  "walk_comps r cur [] = Some cur"
| "walk_comps r cur (c # cs) =
     (if is_dir r cur
      then walk_comps r (if c = [] \<or> c = ''.'' then cur
                         else if c = ''..'' then butlast cur
                         else cur @ [c]) cs
      else None)"

definition resolve :: "string \<Rightarrow> node \<Rightarrow> string \<Rightarrow> string list option" where
  "resolve cwd r p =
     (if p = [] then None else walk_comps r [] (str_split (os_path_join cwd p)))"

definition read_file :: "string \<Rightarrow> node \<Rightarrow> string \<Rightarrow> fdata option" where
  "read_file cwd r p =
     (case resolve cwd r p of
        None \<Rightarrow> None
      | Some cs \<Rightarrow> (case lookup r cs of Some (File d) \<Rightarrow> Some d | _ \<Rightarrow> None))"


text \<open>The absolute path string of a component list.\<close>

definition path_of :: "string list \<Rightarrow> string" where
  "path_of cs = concat (map (\<lambda>c. CHR ''/'' # c) cs)"

section \<open>The world outside: errors, collaborators, calls made\<close>

text \<open>
  \<open>OSError\<close> stands for its subclasses FileNotFoundError, NotADirectoryError,
  IsADirectoryError, FileExistsError and PermissionError; \<open>CalledProcessError\<close> carries
  the exit status and the command; \<open>ProviderError\<close> is whatever the SDK raises;
  \<open>SystemExit\<close> is the exit of the argument parser.
\<close>

datatype error =
    CalledProcessError int string
  | OSError
  | ValueError
  | UnicodeEncodeError
  | ProviderError string
  | EOFError
  | SystemExit int

text \<open>
  The calls that the operating system or a library can refuse for reasons the file-system
  model does not hold: permission bits, a full disk, the size of the argument vector, a
  time stamp before 1980, a name that does not encode.
\<close>

datatype call =
    Spawn string
  | Mkdir string
  | RemoveTree string
  | ZipCreate string
  | ZipAdd string
  | OpenRead string

type_synonym response = string

record publish_request =
  LayerName :: string
  Description :: string
  Content_ZipFile :: fdata
  CompatibleRuntimes :: "string list"

datatype event =
    Shell string int
  | ZipOpen string bool
  | ZipWrite string string
  | Publish string publish_request
  | Print string
  | Prompt string
  | Rmtree string bool

record world =
  fs :: node
  trace :: "event list"

text \<open>
  The collaborators are black boxes: the shell that runs the package manager (exit status
  and the file system it leaves), the refusals of the operating system (\<open>fault\<close>: the
  error a call raises in a state of the file system, if any), the SDK's client
  constructor and publish call, the name \<open>mkdtemp\<close> draws, the working directory and the
  line typed at the prompt.
\<close>

record env =
  shell :: "string \<Rightarrow> node \<Rightarrow> int \<times> node"
  fault :: "call \<Rightarrow> node \<Rightarrow> error option"
  boto3_client :: "string \<Rightarrow> error option"
  publish_layer_version :: "string \<Rightarrow> publish_request \<Rightarrow> error + response"
  tmp :: "string list"
  cwd :: string
  stdin_line :: "string option"

definition emit :: "event \<Rightarrow> world \<Rightarrow> world" where
  "emit e w = w\<lparr>trace := trace w @ [e]\<rparr>"

section \<open>Library calls\<close>

text \<open>
  \<open>subprocess.check_call([cmd], shell=True)\<close>: a command with a NUL byte raises ValueError
  and a command the system refuses to start raises its error, both before any shell runs;
  otherwise the shell runs the command, and a non-zero exit status raises
  CalledProcessError.
\<close>

definition check_call :: "env \<Rightarrow> string \<Rightarrow> world \<Rightarrow> (error + unit) \<times> world" where
  "check_call env cmd w =
     (if CHR 0x00 \<in> set cmd then (Inl ValueError, w)
      else case fault env (Spawn cmd) (fs w) of
        Some e \<Rightarrow> (Inl e, w)
      | None \<Rightarrow>
          (case shell env cmd (fs w) of
             (rc, fs') \<Rightarrow>
               let w' = emit (Shell cmd rc) (w\<lparr>fs := fs'\<rparr>)
               in if rc = 0 then (Inr (), w') else (Inl (CalledProcessError rc cmd), w')))"

text \<open>
  \<open>tempfile.mkdtemp()\<close> makes a new, empty directory and returns its absolute path. The
  name it draws is \<open>tmp env\<close>, given by its components; the call raises when the name
  is no path, its parent is no directory, or the name is taken.
\<close>

definition mkdtemp :: "env \<Rightarrow> world \<Rightarrow> (error + string) \<times> world" where
  "mkdtemp env w =
     (let cs = tmp env
      in if cs \<noteq> [] \<and> list_all valid_name cs \<and> is_dir (fs w) (butlast cs)
            \<and> lookup (fs w) cs = None
         then (Inr (path_of cs), w\<lparr>fs := put (fs w) cs (Some (Dir []))\<rparr>)
         else (Inl OSError, w))"

text \<open>
  \<open>os.makedirs(path)\<close> walks the components of the path and makes every directory that is
  missing on the way; a file on the way raises. It raises FileExistsError when the path
  itself exists, and the error of the system when that refuses (the directories made so
  far stay).
\<close>

definition path_step :: "string list \<Rightarrow> string \<Rightarrow> string list" where
  "path_step cur c =
     (if c = [] \<or> c = ''.'' then cur else if c = ''..'' then butlast cur else cur @ [c])"

fun makedirs_comps :: "node \<Rightarrow> string list \<Rightarrow> string list \<Rightarrow> node \<times> string list option" where
  "makedirs_comps r cur [] = (r, Some cur)"
| "makedirs_comps r cur (c # cs) =
     (case lookup r cur of
        Some (File d) \<Rightarrow> (r, None)
      | Some (Dir kids) \<Rightarrow> makedirs_comps r (path_step cur c) cs
      | None \<Rightarrow> makedirs_comps (put r cur (Some (Dir []))) (path_step cur c) cs)"

definition os_makedirs :: "env \<Rightarrow> string \<Rightarrow> world \<Rightarrow> (error + unit) \<times> world" where
  "os_makedirs env path w =
     (case fault env (Mkdir path) (fs w) of
        Some e \<Rightarrow> (Inl e, w)
      | None \<Rightarrow>
          if path = [] then (Inl OSError, w)
          else (case makedirs_comps (fs w) [] (str_split (os_path_join (cwd env) path)) of
                  (r, None) \<Rightarrow> (Inl OSError, w\<lparr>fs := r\<rparr>)
                | (r, Some cs) \<Rightarrow>
                    (case lookup r cs of
                       None \<Rightarrow> (Inr (), w\<lparr>fs := put r cs (Some (Dir []))\<rparr>)
                     | Some n \<Rightarrow> (Inl OSError, w\<lparr>fs := r\<rparr>))))"

text \<open>
  \<open>shutil.rmtree(path)\<close> (without \<open>ignore_errors\<close>) removes a directory with everything
  below it. It raises when the path is absent or no directory, and when the system
  refuses a removal: the tree then stays (what was removed before the refusal is not
  modelled). A path that is the root, or that ends in \<open>.\<close> or \<open>..\<close>, is emptied and
  the removal of the directory itself raises.
\<close>

definition last_comp :: "string \<Rightarrow> string" where
  "last_comp path =
     (case rev (filter (\<lambda>x. x \<noteq> []) (str_split path)) of [] \<Rightarrow> [] | c # cs \<Rightarrow> c)"

definition shutil_rmtree :: "env \<Rightarrow> string \<Rightarrow> world \<Rightarrow> (error + unit) \<times> world" where
  "shutil_rmtree env path w =
     (case fault env (RemoveTree path) (fs w) of
        Some e \<Rightarrow> (Inl e, emit (Rmtree path False) w)
      | None \<Rightarrow>
     (case resolve (cwd env) (fs w) path of
        None \<Rightarrow> (Inl OSError, emit (Rmtree path False) w)
      | Some cs \<Rightarrow>
          (case lookup (fs w) cs of
             Some (Dir kids) \<Rightarrow>
               if cs = [] \<or> last_comp path = ''.'' \<or> last_comp path = ''..''
               then (Inl OSError,
                     emit (Rmtree path False) (w\<lparr>fs := put (fs w) cs (Some (Dir []))\<rparr>))
               else (Inr (), emit (Rmtree path True) (w\<lparr>fs := put (fs w) cs None\<rparr>))
           | _ \<Rightarrow> (Inl OSError, emit (Rmtree path False) w))))"

text \<open>
  \<open>os.walk(top)\<close>, top-down: for each directory reached its path, the names of its
  subdirectories and the names of its other entries, in listing order. A top that is
  absent or no directory yields nothing (the error is swallowed).
\<close>

definition subdirs :: "(string \<times> node) list \<Rightarrow> (string \<times> node) list" where
  "subdirs kids = filter (\<lambda>e. case snd e of Dir _ \<Rightarrow> True | File _ \<Rightarrow> False) (entries kids)"

definition nondirs :: "(string \<times> node) list \<Rightarrow> (string \<times> node) list" where
  "nondirs kids = filter (\<lambda>e. case snd e of Dir _ \<Rightarrow> False | File _ \<Rightarrow> True) (entries kids)"

lemma entries_subset: "set (entries kids) \<subseteq> set kids"
proof
  fix e assume e: "e \<in> set (entries kids)"
  obtain a b where ab: "e = (a, b)" by (cases e)
  let ?al = "filter (\<lambda>e. valid_name (fst e)) kids"
  have "map_of (AList.clearjunk ?al) a = Some b"
    using e ab by (simp add: entries_def)
  then have "map_of ?al a = Some b"
    by (simp add: map_of_clearjunk)
  then have "(a, b) \<in> set ?al"
    by (rule map_of_SomeD)
  then show "e \<in> set kids"
    using ab by simp
qed

lemma subdirs_size:
  "(a, b) \<in> set (subdirs kids) \<Longrightarrow> size b < Suc (size_list (size_prod (\<lambda>x. 0) size) kids)"
proof -
  assume "(a, b) \<in> set (subdirs kids)"
  then have "(a, b) \<in> set kids"
    using entries_subset [of kids] by (auto simp: subdirs_def)
  then have "size b < size_list (size_prod (\<lambda>x. 0) size) kids"
    by (rule size_list_estimation) simp
  then show ?thesis by simp
qed

function os_walk_node :: "string \<Rightarrow> node \<Rightarrow> (string \<times> string list \<times> string list) list" where
  "os_walk_node root (File d) = []"
| "os_walk_node root (Dir kids) =
     (root, map fst (subdirs kids), map fst (nondirs kids))
     # concat (map (\<lambda>e. os_walk_node (os_path_join root (fst e)) (snd e)) (subdirs kids))"
  by pat_completeness auto
termination
  by (relation "measure (\<lambda>p. size (snd p))") (auto dest: subdirs_size)

definition os_walk :: "env \<Rightarrow> node \<Rightarrow> string \<Rightarrow> (string \<times> string list \<times> string list) list" where
  "os_walk env r path =
     (case resolve (cwd env) r path of
        None \<Rightarrow> []
      | Some cs \<Rightarrow> (case lookup r cs of None \<Rightarrow> [] | Some n \<Rightarrow> os_walk_node path n))"

text \<open>
  \<open>zipfile.ZipFile(file, 'w', ZIP_DEFLATED)\<close> creates or truncates the file; the object
  keeps the open file and the members written so far. \<open>zf.write(filename, arcname)\<close>
  reads the file and adds a member (for a directory an empty member whose name ends in a
  slash); it raises when the file is absent and when the library refuses it (a time
  stamp before 1980, a name that does not encode). \<open>relpath\<close> returns a normalised
  relative path, which is stored as it is. Leaving the \<open>with\<close> block closes the archive,
  which puts the members into the file. What is already flushed while the archive is open
  is not modelled: until it is closed the file reads as empty.
\<close>

record zipfile =
  handle :: "string list"
  members :: "(string \<times> fdata) list"

definition zipfile_open :: "env \<Rightarrow> string \<Rightarrow> world \<Rightarrow> (error + zipfile) \<times> world" where
  "zipfile_open env file w =
     (case fault env (ZipCreate file) (fs w) of
        Some e \<Rightarrow> (Inl e, emit (ZipOpen file False) w)
      | None \<Rightarrow>
     (case resolve (cwd env) (fs w) file of
        None \<Rightarrow> (Inl OSError, emit (ZipOpen file False) w)
      | Some cs \<Rightarrow>
          (case lookup (fs w) cs of
             Some (Dir kids) \<Rightarrow> (Inl OSError, emit (ZipOpen file False) w)
           | _ \<Rightarrow> (Inr \<lparr>handle = cs, members = []\<rparr>,
                   emit (ZipOpen file True)
                     (w\<lparr>fs := put (fs w) cs (Some (File (ZipData [])))\<rparr>)))))"

definition zf_write :: "env \<Rightarrow> string \<Rightarrow> string \<Rightarrow> zipfile \<Rightarrow> world \<Rightarrow> (error + zipfile) \<times> world" where
  "zf_write env filename arcname zf w =
     (case fault env (ZipAdd filename) (fs w) of
        Some e \<Rightarrow> (Inl e, w)
      | None \<Rightarrow>
     (case resolve (cwd env) (fs w) filename of
        None \<Rightarrow> (Inl OSError, w)
      | Some cs \<Rightarrow>
          (case lookup (fs w) cs of
             None \<Rightarrow> (Inl OSError, w)
           | Some (File d) \<Rightarrow>
               (Inr (zf\<lparr>members := members zf @ [(arcname, d)]\<rparr>),
                emit (ZipWrite filename arcname) w)
           | Some (Dir kids) \<Rightarrow>
               (Inr (zf\<lparr>members := members zf @ [(arcname @ ''/'', Bytes [])]\<rparr>),
                emit (ZipWrite filename (arcname @ ''/'')) w))))"

definition zipfile_close :: "zipfile \<Rightarrow> world \<Rightarrow> world" where
  "zipfile_close zf w = w\<lparr>fs := put (fs w) (handle zf) (Some (File (ZipData (members zf))))\<rparr>"

section \<open>create\_lambda\_layer\<close>

text \<open>The inner loop, \<open>for file in files\<close>.\<close>

fun write_files ::
  "env \<Rightarrow> string \<Rightarrow> string \<Rightarrow> string list \<Rightarrow> zipfile \<Rightarrow> world \<Rightarrow> (error + unit) \<times> zipfile \<times> world" where
  "write_files env temp_dir root [] zf w = (Inr (), zf, w)"
| "write_files env temp_dir root (file # files) zf w =
     (let full_path = os_path_join root file;
          relative_path = relpath (cwd env) full_path temp_dir
      in case zf_write env full_path relative_path zf w of
           (Inl e, w') \<Rightarrow> (Inl e, zf, w')
         | (Inr zf', w') \<Rightarrow> write_files env temp_dir root files zf' w')"

text \<open>The outer loop, \<open>for root, _, files in os.walk(package_dir)\<close>.\<close>

fun write_walk ::
  "env \<Rightarrow> string \<Rightarrow> (string \<times> string list \<times> string list) list \<Rightarrow> zipfile \<Rightarrow> world
     \<Rightarrow> (error + unit) \<times> zipfile \<times> world" where
  "write_walk env temp_dir [] zf w = (Inr (), zf, w)"
| "write_walk env temp_dir ((root, dirs, files) # rest) zf w =
     (case write_files env temp_dir root files zf w of
        (Inl e, zf', w') \<Rightarrow> (Inl e, zf', w')
      | (Inr u, zf', w') \<Rightarrow> write_walk env temp_dir rest zf' w')"

text \<open>The \<open>with zipfile.ZipFile(...) as zf\<close> block: the archive is closed on every way out.\<close>

definition zip_package :: "env \<Rightarrow> string \<Rightarrow> string \<Rightarrow> string \<Rightarrow> world \<Rightarrow> (error + unit) \<times> world" where
  "zip_package env temp_dir package_dir zip_file w =
     (case zipfile_open env zip_file w of
        (Inl e, w1) \<Rightarrow> (Inl e, w1)
      | (Inr zf, w1) \<Rightarrow>
          (case write_walk env temp_dir (os_walk env (fs w1) package_dir) zf w1 of
             (r, zf', w2) \<Rightarrow> (r, zipfile_close zf' w2)))"

text \<open>The loop \<open>for library in libraries\<close>.\<close>

fun install_libraries :: "env \<Rightarrow> string list \<Rightarrow> string \<Rightarrow> world \<Rightarrow> (error + unit) \<times> world" where
  "install_libraries env [] package_dir w = (Inr (), w)"
| "install_libraries env (library # libraries) package_dir w =
     (case check_call env (''pip install '' @ library @ '' -t '' @ package_dir) w of
        (Inl e, w') \<Rightarrow> (Inl e, w')
      | (Inr u, w') \<Rightarrow> install_libraries env libraries package_dir w')"

text \<open>
  The description of the published layer: \<open>if libraries\<close> is false for \<open>None\<close> and for
  the empty list.
\<close>

definition description :: "string list option \<Rightarrow> string" where
  "description libraries =
     ''Lambda layer for '' @
       (case libraries of
          Some (l # ls) \<Rightarrow> str_join '', '' (l # ls)
        | _ \<Rightarrow> ''multiple libraries'')"

text \<open>The \<open>if upload\<close> branch: client, \<open>open(zip_file, 'rb')\<close>, publish, print.\<close>

definition upload_layer ::
  "env \<Rightarrow> string list option \<Rightarrow> string \<Rightarrow> string \<Rightarrow> string \<Rightarrow> string \<Rightarrow> world \<Rightarrow> (error + unit) \<times> world" where
  "upload_layer env libraries layer_name runtime region_name zip_file w =
     (case boto3_client env region_name of
        Some e \<Rightarrow> (Inl e, w)
      | None \<Rightarrow>
          (case (case fault env (OpenRead zip_file) (fs w) of
                   Some e \<Rightarrow> Inl e
                 | None \<Rightarrow> (case read_file (cwd env) (fs w) zip_file of
                              None \<Rightarrow> Inl OSError
                            | Some content \<Rightarrow> Inr content)) of
             Inl e \<Rightarrow> (Inl e, w)
           | Inr content \<Rightarrow>
               (let request = \<lparr>LayerName = layer_name,
                               Description = description libraries,
                               Content_ZipFile = content,
                               CompatibleRuntimes = [runtime]\<rparr>;
                    w1 = emit (Publish region_name request) w
                in case publish_layer_version env region_name request of
                     Inl e \<Rightarrow> (Inl e, w1)
                   | Inr response \<Rightarrow> (Inr (), emit (Print response) w1))))"

text \<open>The body of the \<open>try\<close> statement.\<close>

definition try_body ::
  "env \<Rightarrow> string list option \<Rightarrow> string \<Rightarrow> string \<Rightarrow> string \<Rightarrow> bool \<Rightarrow> string option
     \<Rightarrow> string \<Rightarrow> string \<Rightarrow> world \<Rightarrow> (error + unit) \<times> world" where
  "try_body env libraries layer_name runtime region_name upload requirements_file
            temp_dir package_dir w =
     (case (case libraries of
              Some (l # ls) \<Rightarrow> install_libraries env (l # ls) package_dir w
            | _ \<Rightarrow> (Inr (), w)) of
        (Inl e, w1) \<Rightarrow> (Inl e, w1)
      | (Inr u, w1) \<Rightarrow>
     (case (case requirements_file of
              Some (c # cs) \<Rightarrow>
                check_call env (''pip install -r '' @ (c # cs) @ '' -t '' @ package_dir) w1
            | _ \<Rightarrow> (Inr (), w1)) of
        (Inl e, w2) \<Rightarrow> (Inl e, w2)
      | (Inr u, w2) \<Rightarrow>
     (let zip_file = os_path_join temp_dir (layer_name @ ''.zip'')
      in case zip_package env temp_dir package_dir zip_file w2 of
           (Inl e, w3) \<Rightarrow> (Inl e, w3)
         | (Inr u, w3) \<Rightarrow>
             if upload
             then upload_layer env libraries layer_name runtime region_name zip_file w3
             else (Inr (), emit (Print (''Lambda layer package created at: '' @ zip_file)) w3))))"

text \<open>
  The function: \<open>mkdtemp\<close> and \<open>makedirs\<close> before the \<open>try\<close>, the body, and \<open>rmtree\<close> in
  \<open>finally\<close>, whose own error replaces the body's. There is no \<open>return\<close> statement: a
  call that does not raise returns \<open>None\<close>.
\<close>

definition create_lambda_layer ::
  "env \<Rightarrow> string list option \<Rightarrow> string \<Rightarrow> string \<Rightarrow> string \<Rightarrow> bool \<Rightarrow> string option
     \<Rightarrow> world \<Rightarrow> (error + response option) \<times> world" where
  "create_lambda_layer env libraries layer_name runtime region_name upload requirements_file w =
     (case mkdtemp env w of
        (Inl e, w0) \<Rightarrow> (Inl e, w0)
      | (Inr temp_dir, w0) \<Rightarrow>
          (let package_dir = os_path_join temp_dir ''python''
           in case os_makedirs env package_dir w0 of
                (Inl e, w1) \<Rightarrow> (Inl e, w1)
              | (Inr u, w1) \<Rightarrow>
                  (case try_body env libraries layer_name runtime region_name upload
                          requirements_file temp_dir package_dir w1 of
                     (r, w2) \<Rightarrow>
                       (case shutil_rmtree env temp_dir w2 of
                          (Inl e, w3) \<Rightarrow> (Inl e, w3)
                        | (Inr u, w3) \<Rightarrow>
                            (case r of Inl e \<Rightarrow> (Inl e, w3) | Inr u \<Rightarrow> (Inr None, w3))))))"

section \<open>main\<close>

text \<open>
  The command line as the parser sees it: for each option whether it was given, and with
  which values. How argparse cuts the argument vector into options is not modelled; its
  checks are: \<open>--layer-name\<close> is required, and \<open>--libraries\<close> (\<open>nargs='+'\<close>) takes at least
  one value. Either failure exits with status 2.
\<close>

record cmdline =
  opt_libraries :: "string list option"
  opt_layer_name :: "string option"
  opt_runtime :: "string option"
  opt_region :: "string option"
  opt_no_upload :: bool
  opt_requirements_file :: "string option"

record namespace =
  args_libraries :: "string list option"
  args_layer_name :: string
  args_runtime :: string
  args_region :: string
  args_no_upload :: bool
  args_requirements_file :: "string option"

definition parse_args :: "cmdline \<Rightarrow> error + namespace" where
  "parse_args argv =
     (case opt_layer_name argv of
        None \<Rightarrow> Inl (SystemExit 2)
      | Some name \<Rightarrow>
          if opt_libraries argv = Some [] then Inl (SystemExit 2)
          else Inr \<lparr>args_libraries = opt_libraries argv,
                    args_layer_name = name,
                    args_runtime = (case opt_runtime argv of None \<Rightarrow> ''python3.10'' | Some r \<Rightarrow> r),
                    args_region = (case opt_region argv of None \<Rightarrow> ''us-east-1'' | Some r \<Rightarrow> r),
                    args_no_upload = opt_no_upload argv,
                    args_requirements_file = opt_requirements_file argv\<rparr>)"

text \<open>
  White space as \<open>str.strip()\<close> and \<open>str.split()\<close> see it, among the characters below 256.
\<close>

definition is_space :: "char \<Rightarrow> bool" where
  "is_space c = ((of_char c :: nat) \<in> {9, 10, 11, 12, 13, 28, 29, 30, 31, 32, 133, 160})"

definition str_strip :: "string \<Rightarrow> string" where
  "str_strip s = rev (dropWhile is_space (rev (dropWhile is_space s)))"

fun split_words :: "string \<Rightarrow> string \<Rightarrow> string list" where
  "split_words word [] = (if word = [] then [] else [word])"
| "split_words word (c # cs) =
     (if is_space c then (if word = [] then split_words [] cs else word # split_words [] cs)
      else split_words (word @ [c]) cs)"

text \<open>\<open>input(prompt)\<close>: the line typed, or EOFError at the end of the input.\<close>

definition py_input :: "env \<Rightarrow> string \<Rightarrow> world \<Rightarrow> (error + string) \<times> world" where
  "py_input env prompt w =
     (case stdin_line env of
        None \<Rightarrow> (Inl EOFError, emit (Prompt prompt) w)
      | Some line \<Rightarrow> (Inr line, emit (Prompt prompt) w))"

definition truthy_list :: "'a list option \<Rightarrow> bool" where
  "truthy_list x = (case x of Some (a # as) \<Rightarrow> True | _ \<Rightarrow> False)"

definition main :: "env \<Rightarrow> cmdline \<Rightarrow> world \<Rightarrow> (error + response option) \<times> world" where
  "main env argv w =
     (case parse_args argv of
        Inl e \<Rightarrow> (Inl e, w)
      | Inr args \<Rightarrow>
          (case (if \<not> truthy_list (args_libraries args) \<and> \<not> truthy_list (args_requirements_file args)
                 then (case py_input env ''Please enter the pip library names (separated by spaces): '' w of
                         (Inl e, w1) \<Rightarrow> (Inl e, w1)
                       | (Inr line, w1) \<Rightarrow>
                           (let user_input = str_strip line
                            in (Inr (args\<lparr>args_libraries :=
                                     (if user_input \<noteq> [] then Some (split_words [] user_input)
                                      else None)\<rparr>), w1)))
                 else (Inr args, w)) of
             (Inl e, w1) \<Rightarrow> (Inl e, w1)
           | (Inr args', w1) \<Rightarrow>
               create_lambda_layer env (args_libraries args') (args_layer_name args')
                 (args_runtime args') (args_region args') (\<not> args_no_upload args')
                 (args_requirements_file args') w1))"

section \<open>Kinds of calls in the trace\<close>

fun is_Shell :: "event \<Rightarrow> bool" where
  "is_Shell (Shell c rc) = True"
| "is_Shell _ = False"

fun is_Zip :: "event \<Rightarrow> bool" where
  "is_Zip (ZipOpen p ok) = True"
| "is_Zip (ZipWrite f a) = True"
| "is_Zip _ = False"

text \<open>
  The shape of the calls a run makes. A phase of shell commands is a row of commands that
  exited with status 0, ended or not by one that did not and whose CalledProcessError is
  the outcome. After the archive is closed the run prints the path, or publishes and
  prints the response. The body of the \<open>try\<close> statement is a shell phase that failed, or
  one that did not, followed by the calls on the archive and the report.
\<close>

fun ok_Shell :: "event \<Rightarrow> bool" where
  "ok_Shell (Shell c rc) = (rc = 0)"
| "ok_Shell _ = False"

definition shell_phase :: "(error + unit) \<Rightarrow> event list \<Rightarrow> bool" where
  "shell_phase r evs =
     (\<exists>pre. list_all ok_Shell pre
        \<and> (evs = pre
           \<or> (\<exists>c rc. rc \<noteq> 0 \<and> evs = pre @ [Shell c rc] \<and> r = Inl (CalledProcessError rc c))))"

definition report_events ::
  "env \<Rightarrow> string list option \<Rightarrow> string \<Rightarrow> string \<Rightarrow> string \<Rightarrow> bool \<Rightarrow> string
     \<Rightarrow> (error + unit) \<Rightarrow> event list \<Rightarrow> bool" where
  "report_events env libraries layer_name runtime region_name upload temp_dir r tail =
     ((tail = [] \<and> isl r)
    \<or> (\<not> upload \<and> r = Inr ()
        \<and> tail = [Print (''Lambda layer package created at: ''
                          @ os_path_join temp_dir (layer_name @ ''.zip''))])
    \<or> (upload \<and> (\<exists>content e.
          r = Inl e
        \<and> publish_layer_version env region_name
             \<lparr>LayerName = layer_name, Description = description libraries,
              Content_ZipFile = content, CompatibleRuntimes = [runtime]\<rparr> = Inl e
        \<and> tail = [Publish region_name
             \<lparr>LayerName = layer_name, Description = description libraries,
              Content_ZipFile = content, CompatibleRuntimes = [runtime]\<rparr>]))
    \<or> (upload \<and> (\<exists>content response.
          r = Inr ()
        \<and> publish_layer_version env region_name
             \<lparr>LayerName = layer_name, Description = description libraries,
              Content_ZipFile = content, CompatibleRuntimes = [runtime]\<rparr> = Inr response
        \<and> tail = [Publish region_name
             \<lparr>LayerName = layer_name, Description = description libraries,
              Content_ZipFile = content, CompatibleRuntimes = [runtime]\<rparr>,
                   Print response])))"

definition body_events ::
  "env \<Rightarrow> string list option \<Rightarrow> string \<Rightarrow> string \<Rightarrow> string \<Rightarrow> bool \<Rightarrow> string
     \<Rightarrow> (error + unit) \<Rightarrow> event list \<Rightarrow> bool" where
  "body_events env libraries layer_name runtime region_name upload temp_dir r evs =
     (\<exists>pre. list_all ok_Shell pre
        \<and> ((\<exists>c rc. rc \<noteq> 0 \<and> evs = pre @ [Shell c rc] \<and> r = Inl (CalledProcessError rc c))
           \<or> (evs = pre \<and> isl r)
           \<or> (\<exists>zips tail. evs = pre @ zips @ tail \<and> list_all is_Zip zips
                 \<and> report_events env libraries layer_name runtime region_name upload temp_dir r tail)))"

section \<open>A concrete machine\<close>

text \<open>
  A file system with an empty \<open>/tmp\<close>, and a package manager that knows one package,
  \<open>six\<close> (a module and a metadata directory); any other name fails with status 1,
  \<open>--help\<close> prints the usage and installs nothing, and a name that carries shell commands
  has them run: \<open>x; rm -rf /tmp/ws; false #\<close> removes the workspace and fails.
\<close>

definition demo_shell :: "string \<Rightarrow> node \<Rightarrow> int \<times> node" where
  "demo_shell cmd r =
     (if cmd = ''pip install six -t /tmp/ws/python''
      then (0, put (put r [''tmp'', ''ws'', ''python'', ''six.py''] (Some (File (Bytes ''import sys''))))
                 [''tmp'', ''ws'', ''python'', ''six.dist-info'']
                 (Some (Dir [(''METADATA'', File (Bytes ''Name: six''))])))
      else if cmd = ''pip install --help -t /tmp/ws/python'' then (0, r)
      else if cmd = ''pip install x; rm -rf /tmp/ws; false # -t /tmp/ws/python''
      then (1, put r [''tmp'', ''ws''] None)
      else (1, r))"

definition demo_env :: env where
  "demo_env = \<lparr>shell = demo_shell,
                fault = (\<lambda>c r. None),
                boto3_client = (\<lambda>region. None),
                publish_layer_version = (\<lambda>region request. Inr ''LayerVersionArn''),
                tmp = [''tmp'', ''ws''],
                cwd = ''/'',
                stdin_line = None\<rparr>"

definition demo_world :: world where
  "demo_world = \<lparr>fs = Dir [(''tmp'', Dir [])], trace = []\<rparr>"

text \<open>
  An upload run on this machine: \<open>six\<close> and \<open>--help\<close> are installed, the two files
  of \<open>six\<close> are archived, and the archive is published under the name \<open>lay\<close>.
\<close>

definition demo_request :: publish_request where
  "demo_request =
     \<lparr>LayerName = ''lay'',
      Description = ''Lambda layer for six, --help'',
      Content_ZipFile = ZipData [(''python/six.py'', Bytes ''import sys''),
                                 (''python/six.dist-info/METADATA'', Bytes ''Name: six'')],
      CompatibleRuntimes = [''python3.10'']\<rparr>"

definition demo_upload_trace :: "event list" where
  "demo_upload_trace =
     [Shell ''pip install six -t /tmp/ws/python'' 0,
      Shell ''pip install --help -t /tmp/ws/python'' 0,
      ZipOpen ''/tmp/ws/lay.zip'' True,
      ZipWrite ''/tmp/ws/python/six.py'' ''python/six.py'',
      ZipWrite ''/tmp/ws/python/six.dist-info/METADATA'' ''python/six.dist-info/METADATA'',
      Publish ''us-east-1'' demo_request,
      Print ''LayerVersionArn'',
      Rmtree ''/tmp/ws'' True]"

text \<open>
  The states of a run on this machine: after \<open>mkdtemp\<close>, after \<open>makedirs\<close>, and after
  \<open>six\<close> is installed; and a command line.
\<close>

definition demo_w0 :: world where
  "demo_w0 = \<lparr>fs = Dir [(''tmp'', Dir [(''ws'', Dir [])])], trace = []\<rparr>"

definition demo_w1 :: world where
  "demo_w1 = \<lparr>fs = Dir [(''tmp'', Dir [(''ws'', Dir [(''python'', Dir [])])])], trace = []\<rparr>"

definition demo_wa :: world where
  "demo_wa =
     \<lparr>fs = Dir [(''tmp'',
                 Dir [(''ws'',
                       Dir [(''python'',
                             Dir [(''six.py'', File (Bytes ''import sys'')),
                                  (''six.dist-info'',
                                   Dir [(''METADATA'', File (Bytes ''Name: six''))])])])])],
      trace = [Shell ''pip install six -t /tmp/ws/python'' 0]\<rparr>"

definition demo_argv :: cmdline where
  "demo_argv = \<lparr>opt_libraries = Some [''six''], opt_layer_name = Some ''lay'', opt_runtime = None,
                 opt_region = None, opt_no_upload = True, opt_requirements_file = None\<rparr>"

section \<open>Facts about paths and the file system\<close>

lemma map_of_entries:
  "map_of (entries kids) c = (if valid_name c then map_of kids c else None)"
proof -
  have "map_of (filter (\<lambda>e. valid_name (fst e)) kids) c
          = (if valid_name c then map_of kids c else None)"
    by (induction kids) auto
  then show ?thesis
    by (simp add: entries_def map_of_clearjunk)
qed

lemma lookup_append:
  "lookup r (p @ q) = (case lookup r p of None \<Rightarrow> None | Some n \<Rightarrow> lookup n q)"
proof (induction p arbitrary: r)
  case Nil
  show ?case by simp
next
  case (Cons c p)
  show ?case
  proof (cases r)
    case (File d)
    then show ?thesis by simp
  next
    case (Dir kids)
    then show ?thesis
      using Cons.IH by (simp split: option.splits)
  qed
qed

lemma lookup_below_non_dir:
  "\<not> is_dir r p \<Longrightarrow> q \<noteq> [] \<Longrightarrow> lookup r (p @ q) = None"
  by (cases q) (auto simp: lookup_append is_dir_def split: option.splits node.splits)

lemma is_dir_prefix: "is_dir r (p @ q) \<Longrightarrow> is_dir r p"
  by (cases q) (auto simp: lookup_append is_dir_def split: option.splits node.splits)


lemma lookup_put_Some:
  "list_all valid_name p \<Longrightarrow> p \<noteq> [] \<Longrightarrow> is_dir r (butlast p)
     \<Longrightarrow> lookup (put r p (Some n)) (p @ q) = lookup n q"
proof (induction r p "Some n" arbitrary: q rule: put.induct)
  case (1 r)
  then show ?case by simp
next
  case (2 d c cs)
  then show ?case by (cases cs) (simp_all add: is_dir_def)
next
  case (3 kids c)
  then show ?case by (simp add: map_of_entries update_conv')
next
  case (4 kids c v va)
  then show ?case
    by (auto simp add: map_of_entries update_conv' is_dir_def split: option.splits)
qed


lemma str_split_not_Nil: "str_split s \<noteq> []"
  by (induction s) (auto split: list.splits)

lemma str_split_plain: "CHR ''/'' \<notin> set c \<Longrightarrow> str_split c = [c]"
  by (induction c) auto

lemma str_split_sep:
  "CHR ''/'' \<notin> set c \<Longrightarrow> str_split (c @ CHR ''/'' # rest) = c # str_split rest"
  by (induction c) (auto split: list.splits)

lemma path_of_Cons: "path_of (c # cs) = CHR ''/'' # c @ path_of cs"
  by (simp add: path_of_def)

lemma path_of_append: "path_of (a @ b) = path_of a @ path_of b"
  by (simp add: path_of_def)

lemma str_split_path_of:
  "list_all valid_name cs \<Longrightarrow> str_split (path_of cs) = [] # cs"
proof (induction cs)
  case Nil
  show ?case by (simp add: path_of_def)
next
  case (Cons c cs)
  then have c: "CHR ''/'' \<notin> set c" and IH: "str_split (path_of cs) = [] # cs"
    by (simp_all add: valid_name_def)
  show ?case
  proof (cases cs)
    case Nil
    then show ?thesis using c by (simp add: path_of_def str_split_plain)
  next
    case (Cons d ds)
    then have "str_split (d @ path_of ds) = cs"
      using IH by (simp add: path_of_Cons)
    then show ?thesis
      using c Cons by (simp add: path_of_Cons str_split_sep)
  qed
qed

lemma isabs_path_of: "cs \<noteq> [] \<Longrightarrow> isabs (path_of cs)"
  by (cases cs) (simp_all add: isabs_def path_of_Cons)


lemma walk_comps_valid_None:
  "list_all valid_name cs \<Longrightarrow> walk_comps r cur cs = None \<Longrightarrow> lookup r (cur @ cs @ q) = None"
proof (induction cs arbitrary: cur)
  case Nil
  then show ?case by simp
next
  case (Cons c cs)
  show ?case
  proof (cases "is_dir r cur")
    case False
    then show ?thesis
      using lookup_below_non_dir [of r cur "c # cs @ q"] by simp
  next
    case True
    then have "walk_comps r (cur @ [c]) cs = None"
      using Cons.prems by (simp add: valid_name_def)
    then have "lookup r ((cur @ [c]) @ cs @ q) = None"
      using Cons.IH [of "cur @ [c]"] Cons.prems(1) by simp
    then show ?thesis by simp
  qed
qed

lemma walk_comps_valid_dirs:
  "list_all valid_name cs \<Longrightarrow> cs \<noteq> [] \<Longrightarrow> is_dir r (cur @ butlast cs)
     \<Longrightarrow> walk_comps r cur cs = Some (cur @ cs)"
proof (induction cs arbitrary: cur)
  case Nil
  then show ?case by simp
next
  case (Cons c cs)
  have cur: "is_dir r cur"
    using Cons.prems(3) by (rule is_dir_prefix)
  show ?case
  proof (cases cs)
    case Nil
    then show ?thesis using cur Cons.prems by (simp add: valid_name_def)
  next
    case (Cons d ds)
    then have "walk_comps r (cur @ [c]) cs = Some ((cur @ [c]) @ cs)"
      using Cons.IH [of "cur @ [c]"] Cons.prems by simp
    then show ?thesis
      using cur Cons.prems by (simp add: valid_name_def)
  qed
qed

lemma resolve_path_of:
  assumes "list_all valid_name cs" "cs \<noteq> []"
  shows "resolve wd r (path_of cs) = walk_comps r [] cs"
proof -
  have "is_dir r [] \<or> walk_comps r [] cs = None"
    using assms by (cases cs) simp_all
  moreover have "path_of cs \<noteq> []"
    using assms by (cases cs) (simp_all add: path_of_Cons)
  ultimately show ?thesis
    using assms by (auto simp: resolve_def os_path_join_def isabs_path_of str_split_path_of)
qed

lemma resolve_path_of_dirs:
  "list_all valid_name cs \<Longrightarrow> cs \<noteq> [] \<Longrightarrow> is_dir r (butlast cs)
     \<Longrightarrow> resolve wd r (path_of cs) = Some cs"
  using walk_comps_valid_dirs [of cs r "[]"] by (simp add: resolve_path_of)

lemma valid_name_not_abs: "valid_name n \<Longrightarrow> \<not> isabs n"
  by (cases n) (auto simp: valid_name_def isabs_def)

lemma last_path_of:
  "list_all valid_name cs \<Longrightarrow> cs \<noteq> [] \<Longrightarrow> path_of cs \<noteq> [] \<and> last (path_of cs) \<noteq> CHR ''/''"
proof (induction cs)
  case Nil
  then show ?case by simp
next
  case (Cons c cs)
  show ?case
  proof (cases cs)
    case Nil
    have "c \<noteq> []" "CHR ''/'' \<notin> set c"
      using Cons.prems by (simp_all add: valid_name_def)
    then have "last c \<noteq> CHR ''/''"
      using last_in_set by metis
    then show ?thesis
      using Nil \<open>c \<noteq> []\<close> by (simp add: path_of_Cons path_of_def)
  next
    case (Cons d ds)
    then show ?thesis
      using Cons.IH Cons.prems by (simp add: path_of_Cons)
  qed
qed

lemma join_path_of_rel:
  "list_all valid_name cs \<Longrightarrow> cs \<noteq> [] \<Longrightarrow> \<not> isabs b
     \<Longrightarrow> os_path_join (path_of cs) b = path_of cs @ CHR ''/'' # b"
  using last_path_of [of cs] by (simp add: os_path_join_def)

lemma join_path_of:
  "list_all valid_name cs \<Longrightarrow> cs \<noteq> [] \<Longrightarrow> valid_name n
     \<Longrightarrow> os_path_join (path_of cs) n = path_of (cs @ [n])"
  by (simp add: join_path_of_rel valid_name_not_abs path_of_append path_of_Cons)
     (simp add: path_of_def)

lemma valid_python: "valid_name ''python''"
  by (simp add: valid_name_def)

lemma mkdtemp_Inr:
  assumes "mkdtemp env w = (Inr td, w0)"
  shows "td = path_of (tmp env)" "tmp env \<noteq> []" "list_all valid_name (tmp env)"
    "is_dir (fs w) (butlast (tmp env))" "lookup (fs w) (tmp env) = None"
    "w0 = w\<lparr>fs := put (fs w) (tmp env) (Some (Dir []))\<rparr>"
  using assms by (auto simp: mkdtemp_def Let_def split: if_splits)

section \<open>Facts about the steps of the workflow\<close>




lemma rmtree_trace:
  assumes "shutil_rmtree env p w = (t, w')"
  shows "trace w' = trace w @ [Rmtree p (t = Inr ())]"
  using assms
  by (auto simp: shutil_rmtree_def emit_def split: option.splits node.splits if_splits)



lemma makedirs_comps_valid:
  "list_all valid_name cs \<Longrightarrow> cs \<noteq> [] \<Longrightarrow> is_dir r (cur @ butlast cs)
     \<Longrightarrow> makedirs_comps r cur cs = (r, Some (cur @ cs))"
proof (induction cs arbitrary: cur)
  case Nil
  then show ?case by simp
next
  case (Cons c cs)
  have "is_dir r cur"
    using Cons.prems(3) by (rule is_dir_prefix)
  then obtain kids where cur: "lookup r cur = Some (Dir kids)"
    by (auto simp: is_dir_def split: option.splits node.splits)
  have step: "path_step cur c = cur @ [c]"
    using Cons.prems(1) by (simp add: path_step_def valid_name_def)
  show ?case
  proof (cases cs)
    case Nil
    then show ?thesis using cur step by simp
  next
    case (Cons d ds)
    then have "makedirs_comps r (cur @ [c]) cs = (r, Some ((cur @ [c]) @ cs))"
      using Cons.IH [of "cur @ [c]"] Cons.prems by simp
    then show ?thesis
      using cur step by simp
  qed
qed

lemma makedirs_trace:
  "os_makedirs env p w = (r, w') \<Longrightarrow> trace w' = trace w"
  by (auto simp: os_makedirs_def split: option.splits prod.splits if_splits)

lemma mkdtemp_workspace:
  assumes "mkdtemp env w = (Inr td, w0)"
  shows "lookup (fs w0) (tmp env @ q) = lookup (Dir []) q"
  using mkdtemp_Inr [OF assms] by (simp add: lookup_put_Some)

lemma makedirs_python:
  assumes m: "mkdtemp env w = (Inr td, w0)"
    and d: "os_makedirs env (os_path_join td ''python'') w0 = (Inr (), w1)"
  shows "w1 = w0\<lparr>fs := put (fs w0) (tmp env @ [''python'']) (Some (Dir []))\<rparr>"
proof -
  note mi = mkdtemp_Inr [OF m]
  have j: "os_path_join td ''python'' = path_of (tmp env @ [''python''])"
    using mi by (simp add: join_path_of valid_python)
  have v: "list_all valid_name ([] # tmp env @ [''python'']) = False"
    by (simp add: valid_name_def)
  have dir: "is_dir (fs w0) (tmp env)"
    using mkdtemp_workspace [OF m, of "[]"] by (simp add: is_dir_def)
  then have root: "is_dir (fs w0) []"
    using is_dir_prefix [of "fs w0" "[]" "tmp env"] by simp
  then obtain kids where k: "lookup (fs w0) [] = Some (Dir kids)"
    by (auto simp: is_dir_def split: option.splits node.splits)
  have "makedirs_comps (fs w0) [] (tmp env @ [''python'']) = (fs w0, Some ([] @ tmp env @ [''python'']))"
    using mi dir by (intro makedirs_comps_valid) (simp_all add: valid_python)
  then have mc: "makedirs_comps (fs w0) [] ([] # tmp env @ [''python''])
      = (fs w0, Some (tmp env @ [''python'']))"
    using k by (simp add: path_step_def)
  have sp: "str_split (os_path_join (cwd env) (path_of (tmp env @ [''python''])))
      = [] # tmp env @ [''python'']"
    using mi by (simp add: os_path_join_def isabs_path_of str_split_path_of valid_python)
  have none: "lookup (fs w0) (tmp env @ [''python'']) = None"
    using mkdtemp_workspace [OF m, of "[''python'']"] by (simp add: entries_def)
  have ne: "path_of (tmp env @ [''python'']) \<noteq> []"
    by (simp add: path_of_def)
  show ?thesis
    using d mc sp none ne
    by (auto simp: os_makedirs_def j split: option.splits)
qed

lemma create_lambda_layer_cases:
  assumes "create_lambda_layer env libraries layer_name runtime region_name upload requirements_file w
             = (res, w')"
  shows "(trace w' = trace w \<and> isl res)
       \<or> (\<exists>td w0 w1 r w2 t.
             mkdtemp env w = (Inr td, w0)
           \<and> os_makedirs env (os_path_join td ''python'') w0 = (Inr (), w1)
           \<and> try_body env libraries layer_name runtime region_name upload requirements_file td
                (os_path_join td ''python'') w1 = (r, w2)
           \<and> shutil_rmtree env td w2 = (t, w')
           \<and> res = (case t of Inl e \<Rightarrow> Inl e
                     | Inr u \<Rightarrow> (case r of Inl e \<Rightarrow> Inl e | Inr u \<Rightarrow> Inr None)))"
proof -
  obtain m w0 where m: "mkdtemp env w = (m, w0)"
    by (cases "mkdtemp env w")
  have t0: "trace w0 = trace w"
    using m by (auto simp: mkdtemp_def Let_def split: if_splits)
  show ?thesis
  proof (cases m)
    case (Inl e)
    then show ?thesis
      using assms m t0 by (auto simp: create_lambda_layer_def)
  next
    case (Inr td)
    obtain d w1 where d: "os_makedirs env (os_path_join td ''python'') w0 = (d, w1)"
      by (cases "os_makedirs env (os_path_join td ''python'') w0")
    have t1: "trace w1 = trace w"
      using makedirs_trace [OF d] t0 by simp
    show ?thesis
    proof (cases d)
      case (Inl e)
      then show ?thesis
        using assms m Inr d t1 by (auto simp: create_lambda_layer_def Let_def)
    next
      case Inr2: (Inr u)
      obtain r w2 where b: "try_body env libraries layer_name runtime region_name upload
          requirements_file td (os_path_join td ''python'') w1 = (r, w2)"
        by (cases "try_body env libraries layer_name runtime region_name upload
          requirements_file td (os_path_join td ''python'') w1")
      obtain t w3 where c: "shutil_rmtree env td w2 = (t, w3)"
        by (cases "shutil_rmtree env td w2")
      have "res = (case t of Inl e \<Rightarrow> Inl e
                     | Inr u \<Rightarrow> (case r of Inl e \<Rightarrow> Inl e | Inr u \<Rightarrow> Inr None))" "w' = w3"
        using assms m Inr d Inr2 b c
        by (simp_all add: create_lambda_layer_def Let_def split: sum.splits)
      then have "mkdtemp env w = (Inr td, w0)
           \<and> os_makedirs env (os_path_join td ''python'') w0 = (Inr (), w1)
           \<and> try_body env libraries layer_name runtime region_name upload requirements_file td
                (os_path_join td ''python'') w1 = (r, w2)
           \<and> shutil_rmtree env td w2 = (t, w')
           \<and> res = (case t of Inl e \<Rightarrow> Inl e
                     | Inr u \<Rightarrow> (case r of Inl e \<Rightarrow> Inl e | Inr u \<Rightarrow> Inr None))"
        using m Inr d Inr2 b c by simp
      then show ?thesis
        by (intro disjI2 exI)
    qed
  qed
qed

lemma shell_phase_Nil: "shell_phase r []"
  unfolding shell_phase_def by (rule exI [of _ "[]"]) simp

lemma shell_phase_seq:
  assumes "list_all ok_Shell pre" "shell_phase r evs"
  shows "shell_phase r (pre @ evs)"
proof -
  obtain p where p: "list_all ok_Shell p"
    and c: "evs = p \<or> (\<exists>c rc. rc \<noteq> 0 \<and> evs = p @ [Shell c rc] \<and> r = Inl (CalledProcessError rc c))"
    using assms(2) unfolding shell_phase_def by (elim exE conjE)
  have "list_all ok_Shell (pre @ p)
        \<and> (pre @ evs = pre @ p
           \<or> (\<exists>c rc. rc \<noteq> 0 \<and> pre @ evs = (pre @ p) @ [Shell c rc] \<and> r = Inl (CalledProcessError rc c)))"
    using assms(1) p c by auto
  then show ?thesis
    unfolding shell_phase_def by (rule exI)
qed

lemma shell_phase_Inr:
  "shell_phase (Inr u) evs \<Longrightarrow> list_all ok_Shell evs"
  unfolding shell_phase_def by auto

lemma check_call_phase:
  assumes "check_call env cmd w = (r, w')"
  shows "\<exists>evs. trace w' = trace w @ evs \<and> shell_phase r evs"
proof (cases "CHR 0x00 \<in> set cmd \<or> fault env (Spawn cmd) (fs w) \<noteq> None")
  case True
  then have "trace w' = trace w @ []"
    using assms by (auto simp: check_call_def split: option.splits if_splits)
  then have "trace w' = trace w @ [] \<and> shell_phase r []"
    by (simp add: shell_phase_Nil)
  then show ?thesis by (rule exI)
next
  case False
  obtain rc f where s: "shell env cmd (fs w) = (rc, f)"
    by (cases "shell env cmd (fs w)")
  have w': "w' = emit (Shell cmd rc) (w\<lparr>fs := f\<rparr>)"
    and r: "r = (if rc = 0 then Inr () else Inl (CalledProcessError rc cmd))"
    using assms s False by (simp_all add: check_call_def Let_def split: if_splits)
  have t: "trace w' = trace w @ [Shell cmd rc]"
    using w' by (simp add: emit_def)
  have "shell_phase r [Shell cmd rc]"
  proof (cases "rc = 0")
    case True
    then have "list_all ok_Shell [Shell cmd rc] \<and> ([Shell cmd rc] = [Shell cmd rc]
       \<or> (\<exists>c rc'. rc' \<noteq> 0 \<and> [Shell cmd rc] = [Shell cmd rc] @ [Shell c rc']
             \<and> r = Inl (CalledProcessError rc' c)))"
      by simp
    then show ?thesis unfolding shell_phase_def by (rule exI)
  next
    case False
    then have "list_all ok_Shell [] \<and> ([Shell cmd rc] = []
       \<or> (\<exists>c rc'. rc' \<noteq> 0 \<and> [Shell cmd rc] = [] @ [Shell c rc']
             \<and> r = Inl (CalledProcessError rc' c)))"
      using r by simp
    then show ?thesis unfolding shell_phase_def by (rule exI)
  qed
  then have "trace w' = trace w @ [Shell cmd rc] \<and> shell_phase r [Shell cmd rc]"
    using t by simp
  then show ?thesis by (rule exI)
qed

lemma install_libraries_phase:
  "install_libraries env libs pd w = (r, w')
     \<Longrightarrow> \<exists>evs. trace w' = trace w @ evs \<and> shell_phase r evs"
proof (induction libs arbitrary: w)
  case Nil
  then have "trace w' = trace w @ [] \<and> shell_phase r []"
    by (simp add: shell_phase_Nil)
  then show ?case by (rule exI)
next
  case (Cons l libs)
  let ?cmd = "''pip install '' @ l @ '' -t '' @ pd"
  obtain r1 w1 where c: "check_call env ?cmd w = (r1, w1)"
    by (cases "check_call env ?cmd w")
  obtain e1 where e1: "trace w1 = trace w @ e1" "shell_phase r1 e1"
    using check_call_phase [OF c] by (elim exE conjE)
  show ?case
  proof (cases r1)
    case (Inl e)
    then have "w' = w1" "r = r1" using Cons.prems c by simp_all
    then have "trace w' = trace w @ e1 \<and> shell_phase r e1"
      using e1 by simp
    then show ?thesis by (rule exI)
  next
    case (Inr u)
    then have "install_libraries env libs pd w1 = (r, w')"
      using Cons.prems c by simp
    then have "\<exists>evs. trace w' = trace w1 @ evs \<and> shell_phase r evs"
      by (rule Cons.IH)
    then obtain e2 where e2: "trace w' = trace w1 @ e2" "shell_phase r e2"
      by (elim exE conjE)
    have "list_all ok_Shell e1"
      using e1(2) Inr by (simp add: shell_phase_Inr)
    then have "trace w' = trace w @ (e1 @ e2) \<and> shell_phase r (e1 @ e2)"
      using e1(1) e2 by (simp add: shell_phase_seq)
    then show ?thesis by (rule exI)
  qed
qed

lemma zipfile_open_trace:
  assumes "zipfile_open env file w = (r, w')"
  shows "trace w' = trace w @ [ZipOpen file (\<not> isl r)]"
  using assms
  by (auto simp: zipfile_open_def emit_def split: option.splits node.splits)

lemma zf_write_trace:
  assumes "zf_write env f a zf w = (r, w')"
  shows "fs w' = fs w \<and> (\<exists>evs. trace w' = trace w @ evs \<and> list_all is_Zip evs)"
proof -
  have "fs w' = fs w \<and> (trace w' = trace w @ [] \<or> trace w' = trace w @ [ZipWrite f a]
          \<or> trace w' = trace w @ [ZipWrite f (a @ ''/'')])"
    using assms
    by (auto simp: zf_write_def emit_def split: option.splits node.splits)
  then have "fs w' = fs w" and
    c: "trace w' = trace w @ [] \<or> trace w' = trace w @ [ZipWrite f a]
          \<or> trace w' = trace w @ [ZipWrite f (a @ ''/'')]"
    by simp_all
  from c have "\<exists>evs. trace w' = trace w @ evs \<and> list_all is_Zip evs"
  proof (elim disjE)
    assume "trace w' = trace w @ []"
    then have "trace w' = trace w @ [] \<and> list_all is_Zip []" by simp
    then show ?thesis by (rule exI)
  next
    assume "trace w' = trace w @ [ZipWrite f a]"
    then have "trace w' = trace w @ [ZipWrite f a] \<and> list_all is_Zip [ZipWrite f a]" by simp
    then show ?thesis by (rule exI)
  next
    assume "trace w' = trace w @ [ZipWrite f (a @ ''/'')]"
    then have "trace w' = trace w @ [ZipWrite f (a @ ''/'')]
        \<and> list_all is_Zip [ZipWrite f (a @ ''/'')]" by simp
    then show ?thesis by (rule exI)
  qed
  then show ?thesis using \<open>fs w' = fs w\<close> by simp
qed

lemma write_files_trace:
  "write_files env td root files zf w = (r, zf', w')
     \<Longrightarrow> fs w' = fs w \<and> (\<exists>evs. trace w' = trace w @ evs \<and> list_all is_Zip evs)"
proof (induction files arbitrary: zf w)
  case Nil
  then have "fs w' = fs w" "trace w' = trace w @ [] \<and> list_all is_Zip []" by simp_all
  then show ?case by blast
next
  case (Cons fl files)
  let ?full = "os_path_join root fl"
  let ?rel = "relpath (cwd env) ?full td"
  obtain r1 w1 where z: "zf_write env ?full ?rel zf w = (r1, w1)"
    by (cases "zf_write env ?full ?rel zf w")
  obtain e1 where f1: "fs w1 = fs w" and e1: "trace w1 = trace w @ e1" "list_all is_Zip e1"
    using zf_write_trace [OF z] by (elim exE conjE)
  show ?case
  proof (cases r1)
    case (Inl e)
    then have "w' = w1" using Cons.prems z by (simp add: Let_def)
    then have "trace w' = trace w @ e1 \<and> list_all is_Zip e1" using e1 by simp
    then have "\<exists>evs. trace w' = trace w @ evs \<and> list_all is_Zip evs" by (rule exI)
    then show ?thesis using f1 \<open>w' = w1\<close> by simp
  next
    case (Inr zf1)
    then have "write_files env td root files zf1 w1 = (r, zf', w')"
      using Cons.prems z by (simp add: Let_def)
    then have "fs w' = fs w1 \<and> (\<exists>evs. trace w' = trace w1 @ evs \<and> list_all is_Zip evs)"
      by (rule Cons.IH)
    then obtain e2 where f2: "fs w' = fs w1" and e2: "trace w' = trace w1 @ e2" "list_all is_Zip e2"
      by (elim exE conjE)
    have "trace w' = trace w @ (e1 @ e2) \<and> list_all is_Zip (e1 @ e2)"
      using e1 e2 by simp
    then have "\<exists>evs. trace w' = trace w @ evs \<and> list_all is_Zip evs" by (rule exI)
    then show ?thesis using f1 f2 by simp
  qed
qed

lemma write_walk_trace:
  "write_walk env td walk zf w = (r, zf', w')
     \<Longrightarrow> fs w' = fs w \<and> (\<exists>evs. trace w' = trace w @ evs \<and> list_all is_Zip evs)"
proof (induction walk arbitrary: zf w)
  case Nil
  then have "fs w' = fs w" "trace w' = trace w @ [] \<and> list_all is_Zip []" by simp_all
  then show ?case by blast
next
  case (Cons x walk)
  obtain root dirs files where x: "x = (root, dirs, files)"
    by (cases x)
  obtain r1 zf1 w1 where z: "write_files env td root files zf w = (r1, zf1, w1)"
    by (cases "write_files env td root files zf w")
  obtain e1 where f1: "fs w1 = fs w" and e1: "trace w1 = trace w @ e1" "list_all is_Zip e1"
    using write_files_trace [OF z] by (elim exE conjE)
  show ?case
  proof (cases r1)
    case (Inl e)
    then have "w' = w1" using Cons.prems z x by simp
    then have "trace w' = trace w @ e1 \<and> list_all is_Zip e1" using e1 by simp
    then have "\<exists>evs. trace w' = trace w @ evs \<and> list_all is_Zip evs" by (rule exI)
    then show ?thesis using f1 \<open>w' = w1\<close> by simp
  next
    case (Inr u)
    then have "write_walk env td walk zf1 w1 = (r, zf', w')"
      using Cons.prems z x by simp
    then have "fs w' = fs w1 \<and> (\<exists>evs. trace w' = trace w1 @ evs \<and> list_all is_Zip evs)"
      by (rule Cons.IH)
    then obtain e2 where f2: "fs w' = fs w1" and e2: "trace w' = trace w1 @ e2" "list_all is_Zip e2"
      by (elim exE conjE)
    have "trace w' = trace w @ (e1 @ e2) \<and> list_all is_Zip (e1 @ e2)"
      using e1 e2 by simp
    then have "\<exists>evs. trace w' = trace w @ evs \<and> list_all is_Zip evs" by (rule exI)
    then show ?thesis using f1 f2 by simp
  qed
qed

lemma zip_package_trace:
  assumes "zip_package env td pd zip_file w = (r, w')"
  shows "\<exists>evs. trace w' = trace w @ evs \<and> list_all is_Zip evs"
proof -
  obtain r1 w1 where o: "zipfile_open env zip_file w = (r1, w1)"
    by (cases "zipfile_open env zip_file w")
  have t1: "trace w1 = trace w @ [ZipOpen zip_file (\<not> isl r1)]"
    by (rule zipfile_open_trace [OF o])
  show ?thesis
  proof (cases r1)
    case (Inl e)
    then have "w' = w1" using assms o by (simp add: zip_package_def)
    then have "trace w' = trace w @ [ZipOpen zip_file (\<not> isl r1)]
        \<and> list_all is_Zip [ZipOpen zip_file (\<not> isl r1)]"
      using t1 by simp
    then show ?thesis by (rule exI)
  next
    case (Inr zf)
    obtain r2 zf2 w2 where ww: "write_walk env td (os_walk env (fs w1) pd) zf w1 = (r2, zf2, w2)"
      by (cases "write_walk env td (os_walk env (fs w1) pd) zf w1")
    obtain e2 where e2: "trace w2 = trace w1 @ e2" "list_all is_Zip e2"
      using write_walk_trace [OF ww] by (elim exE conjE)
    have "w' = zipfile_close zf2 w2"
      using assms o Inr ww by (simp add: zip_package_def)
    then have "trace w' = trace w2"
      by (simp add: zipfile_close_def)
    then have "trace w' = trace w @ (ZipOpen zip_file (\<not> isl r1) # e2)
        \<and> list_all is_Zip (ZipOpen zip_file (\<not> isl r1) # e2)"
      using t1 e2 by simp
    then show ?thesis by (rule exI)
  qed
qed

lemma upload_layer_shape:
  assumes "upload_layer env libraries layer_name runtime region_name zip_file w = (r, w')"
  shows "\<exists>tail. trace w' = trace w @ tail
           \<and> report_events env libraries layer_name runtime region_name True td r tail"
proof (cases "boto3_client env region_name")
  case (Some e)
  then have "trace w' = trace w @ [] \<and> isl r"
    using assms by (auto simp: upload_layer_def)
  then have "trace w' = trace w @ []
           \<and> report_events env libraries layer_name runtime region_name True td r []"
    by (simp add: report_events_def)
  then show ?thesis by (rule exI)
next
  case None
  let ?rd = "case fault env (OpenRead zip_file) (fs w) of
                   Some e \<Rightarrow> Inl e
                 | None \<Rightarrow> (case read_file (cwd env) (fs w) zip_file of
                              None \<Rightarrow> Inl OSError
                            | Some content \<Rightarrow> Inr content)"
  show ?thesis
  proof (cases ?rd)
    case (Inl e)
    then have "trace w' = trace w @ [] \<and> isl r"
      using assms None by (auto simp: upload_layer_def)
    then have "trace w' = trace w @ []
           \<and> report_events env libraries layer_name runtime region_name True td r []"
      by (simp add: report_events_def)
    then show ?thesis by (rule exI)
  next
    case (Inr content)
    let ?req = "\<lparr>LayerName = layer_name, Description = description libraries,
              Content_ZipFile = content, CompatibleRuntimes = [runtime]\<rparr>"
    show ?thesis
    proof (cases "publish_layer_version env region_name ?req")
      case pl: (Inl e)
      then have "trace w' = trace w @ [Publish region_name ?req]" "r = Inl e"
        using assms None Inr by (auto simp: upload_layer_def Let_def emit_def)
      then have "trace w' = trace w @ [Publish region_name ?req]
           \<and> report_events env libraries layer_name runtime region_name True td r
                [Publish region_name ?req]"
        using pl unfolding report_events_def by blast
      then show ?thesis by (rule exI)
    next
      case pr: (Inr response)
      then have "trace w' = trace w @ [Publish region_name ?req, Print response]" "r = Inr ()"
        using assms None Inr by (auto simp: upload_layer_def Let_def emit_def)
      then have "trace w' = trace w @ [Publish region_name ?req, Print response]
           \<and> report_events env libraries layer_name runtime region_name True td r
                [Publish region_name ?req, Print response]"
        using pr unfolding report_events_def by blast
      then show ?thesis by (rule exI)
    qed
  qed
qed

lemma body_events_shell:
  assumes "shell_phase r evs" "isl r"
  shows "body_events env libraries layer_name runtime region_name upload td r evs"
proof -
  obtain p where p: "list_all ok_Shell p"
    and c: "evs = p \<or> (\<exists>c rc. rc \<noteq> 0 \<and> evs = p @ [Shell c rc] \<and> r = Inl (CalledProcessError rc c))"
    using assms(1) unfolding shell_phase_def by (elim exE conjE)
  have "list_all ok_Shell p
        \<and> ((\<exists>c rc. rc \<noteq> 0 \<and> evs = p @ [Shell c rc] \<and> r = Inl (CalledProcessError rc c))
           \<or> (evs = p \<and> isl r)
           \<or> (\<exists>zips tail. evs = p @ zips @ tail \<and> list_all is_Zip zips
                 \<and> report_events env libraries layer_name runtime region_name upload td r tail))"
    using p c assms(2) by blast
  then show ?thesis
    unfolding body_events_def by (rule exI)
qed

lemma body_events_report:
  assumes "list_all ok_Shell pre" "list_all is_Zip zips"
    "report_events env libraries layer_name runtime region_name upload td r tail"
  shows "body_events env libraries layer_name runtime region_name upload td r (pre @ zips @ tail)"
proof -
  have "\<exists>z t. pre @ zips @ tail = pre @ z @ t \<and> list_all is_Zip z
                 \<and> report_events env libraries layer_name runtime region_name upload td r t"
    using assms(2,3) by blast
  then have "list_all ok_Shell pre
        \<and> ((\<exists>c rc. rc \<noteq> 0 \<and> pre @ zips @ tail = pre @ [Shell c rc]
               \<and> r = Inl (CalledProcessError rc c))
           \<or> (pre @ zips @ tail = pre \<and> isl r)
           \<or> (\<exists>z t. pre @ zips @ tail = pre @ z @ t \<and> list_all is_Zip z
                 \<and> report_events env libraries layer_name runtime region_name upload td r t))"
    using assms(1) by simp
  then show ?thesis
    unfolding body_events_def by (rule exI)
qed

lemma try_body_shape:
  assumes "try_body env libraries layer_name runtime region_name upload requirements_file td pd w
             = (r, w')"
  shows "\<exists>evs. trace w' = trace w @ evs
           \<and> body_events env libraries layer_name runtime region_name upload td r evs"
proof -
  let ?i = "case libraries of
              Some (l # ls) \<Rightarrow> install_libraries env (l # ls) pd w
            | _ \<Rightarrow> (Inr (), w)"
  obtain r1 w1 where i: "?i = (r1, w1)"
    by (cases ?i)
  have "\<exists>evs. trace w1 = trace w @ evs \<and> shell_phase r1 evs"
  proof (cases "\<exists>l ls. libraries = Some (l # ls)")
    case True
    then obtain l ls where "libraries = Some (l # ls)" by blast
    then have "install_libraries env (l # ls) pd w = (r1, w1)"
      using i by simp
    then show ?thesis by (rule install_libraries_phase)
  next
    case False
    then have "w1 = w"
      using i by (auto split: option.splits list.splits)
    then have "trace w1 = trace w @ [] \<and> shell_phase r1 []"
      by (simp add: shell_phase_Nil)
    then show ?thesis by (rule exI)
  qed
  then obtain e1 where e1: "trace w1 = trace w @ e1" "shell_phase r1 e1"
    by (elim exE conjE)
  show ?thesis
  proof (cases r1)
    case (Inl e)
    then have "r = r1" "w' = w1"
      using assms i by (simp_all add: try_body_def)
    then have "trace w' = trace w @ e1
           \<and> body_events env libraries layer_name runtime region_name upload td r e1"
      using e1 Inl by (simp add: body_events_shell)
    then show ?thesis by (rule exI)
  next
    case (Inr u1)
    then have ok1: "list_all ok_Shell e1"
      using e1(2) by (simp add: shell_phase_Inr)
    let ?q = "case requirements_file of
              Some (c # cs) \<Rightarrow>
                check_call env (''pip install -r '' @ (c # cs) @ '' -t '' @ pd) w1
            | _ \<Rightarrow> (Inr (), w1)"
    obtain r2 w2 where q: "?q = (r2, w2)"
      by (cases ?q)
    have "\<exists>evs. trace w2 = trace w1 @ evs \<and> shell_phase r2 evs"
    proof (cases "\<exists>c cs. requirements_file = Some (c # cs)")
      case True
      then obtain c cs where "requirements_file = Some (c # cs)" by blast
      then have "check_call env (''pip install -r '' @ (c # cs) @ '' -t '' @ pd) w1 = (r2, w2)"
        using q by simp
      then show ?thesis by (rule check_call_phase)
    next
      case False
      then have "w2 = w1"
        using q by (auto split: option.splits list.splits)
      then have "trace w2 = trace w1 @ [] \<and> shell_phase r2 []"
        by (simp add: shell_phase_Nil)
      then show ?thesis by (rule exI)
    qed
    then obtain e2 where e2: "trace w2 = trace w1 @ e2" "shell_phase r2 e2"
      by (elim exE conjE)
    have ph: "shell_phase r2 (e1 @ e2)"
      using ok1 e2(2) by (rule shell_phase_seq)
    show ?thesis
    proof (cases r2)
      case (Inl e)
      then have "r = r2" "w' = w2"
        using assms i Inr q by (simp_all add: try_body_def)
      then have "trace w' = trace w @ (e1 @ e2)
           \<and> body_events env libraries layer_name runtime region_name upload td r (e1 @ e2)"
        using e1(1) e2(1) ph Inl by (simp add: body_events_shell)
      then show ?thesis by (rule exI)
    next
      case Inr2: (Inr u2)
      have "shell_phase (Inr u2) (e1 @ e2)"
        using ph Inr2 by simp
      then have ok2: "list_all ok_Shell (e1 @ e2)"
        by (rule shell_phase_Inr)
      let ?zip = "os_path_join td (layer_name @ ''.zip'')"
      obtain r3 w3 where z: "zip_package env td pd ?zip w2 = (r3, w3)"
        by (cases "zip_package env td pd ?zip w2")
      obtain e3 where e3: "trace w3 = trace w2 @ e3" "list_all is_Zip e3"
        using zip_package_trace [OF z] by (elim exE conjE)
      have "\<exists>tail. trace w' = trace w3 @ tail
           \<and> report_events env libraries layer_name runtime region_name upload td r tail"
      proof (cases r3)
        case (Inl e)
        then have "r = Inl e" "w' = w3"
          using assms i Inr q Inr2 z by (simp_all add: try_body_def Let_def)
        then have "trace w' = trace w3 @ []
           \<and> report_events env libraries layer_name runtime region_name upload td r []"
          by (simp add: report_events_def)
        then show ?thesis by (rule exI)
      next
        case Inr3: (Inr u3)
        show ?thesis
        proof (cases upload)
          case True
          then have "upload_layer env libraries layer_name runtime region_name ?zip w3 = (r, w')"
            using assms i Inr q Inr2 z Inr3 by (simp add: try_body_def Let_def)
          then show ?thesis
            using True upload_layer_shape by simp
        next
          case False
          then have "r = Inr ()" "w' = emit (Print (''Lambda layer package created at: '' @ ?zip)) w3"
            using assms i Inr q Inr2 z Inr3 by (simp_all add: try_body_def Let_def)
          then have "trace w' = trace w3 @ [Print (''Lambda layer package created at: '' @ ?zip)]
           \<and> report_events env libraries layer_name runtime region_name upload td r
               [Print (''Lambda layer package created at: '' @ ?zip)]"
            using False by (simp add: emit_def report_events_def)
          then show ?thesis by (rule exI)
        qed
      qed
      then obtain tail where tl: "trace w' = trace w3 @ tail"
           "report_events env libraries layer_name runtime region_name upload td r tail"
        by (elim exE conjE)
      have "body_events env libraries layer_name runtime region_name upload td r
              ((e1 @ e2) @ e3 @ tail)"
        using ok2 e3(2) tl(2) by (rule body_events_report)
      then have "trace w' = trace w @ ((e1 @ e2) @ e3 @ tail)
           \<and> body_events env libraries layer_name runtime region_name upload td r
              ((e1 @ e2) @ e3 @ tail)"
        using e1(1) e2(1) e3(1) tl(1) by simp
      then show ?thesis by (rule exI)
    qed
  qed
qed


lemma valid_zip_name:
  "CHR ''/'' \<notin> set n \<Longrightarrow> valid_name (n @ ''.zip'')"
  by (cases n) (auto simp: valid_name_def)

section \<open>Facts about the publish call\<close>

lemma report_events_publish:
  assumes "report_events env libraries layer_name runtime region_name upload td r tail"
    and "Publish region request \<in> set tail"
  shows "region = region_name \<and> LayerName request = layer_name
       \<and> Description request = description libraries
       \<and> CompatibleRuntimes request = [runtime]
       \<and> (\<forall>response. publish_layer_version env region request = Inr response
             \<longrightarrow> tail = [Publish region request, Print response] \<and> r = Inr ())"
  using assms by (auto simp: report_events_def)

lemma body_events_publish:
  assumes b: "body_events env libraries layer_name runtime region_name upload td r evs"
    and s: "Publish region request \<in> set evs"
  shows "\<exists>pre tail. evs = pre @ tail
           \<and> report_events env libraries layer_name runtime region_name upload td r tail
           \<and> Publish region request \<in> set tail"
proof -
  obtain pre where pre: "list_all ok_Shell pre"
    and cs: "(\<exists>c rc. rc \<noteq> 0 \<and> evs = pre @ [Shell c rc] \<and> r = Inl (CalledProcessError rc c))
           \<or> (evs = pre \<and> isl r)
           \<or> (\<exists>zips tail. evs = pre @ zips @ tail \<and> list_all is_Zip zips
                 \<and> report_events env libraries layer_name runtime region_name upload td r tail)"
    using b unfolding body_events_def by (elim exE conjE)
  have np: "Publish region request \<notin> set pre"
  proof
    assume "Publish region request \<in> set pre"
    then have "ok_Shell (Publish region request)"
      using pre by (auto simp: list_all_iff)
    then show False by simp
  qed
  from cs show ?thesis
  proof (elim disjE exE conjE)
    fix c' rc'
    assume "evs = pre @ [Shell c' rc']"
    then show ?thesis using s np by simp
  next
    assume "evs = pre"
    then show ?thesis using s np by simp
  next
    fix zips tail
    assume a: "evs = pre @ zips @ tail" "list_all is_Zip zips"
      "report_events env libraries layer_name runtime region_name upload td r tail"
    have "Publish region request \<notin> set zips"
    proof
      assume "Publish region request \<in> set zips"
      then have "is_Zip (Publish region request)"
        using a(2) by (auto simp: list_all_iff)
      then show False by simp
    qed
    then have "Publish region request \<in> set tail"
      using s np a(1) by simp
    then have "evs = (pre @ zips) @ tail
           \<and> report_events env libraries layer_name runtime region_name upload td r tail
           \<and> Publish region request \<in> set tail"
      using a by simp
    then show ?thesis by (intro exI)
  qed
qed

lemma run_publish:
  assumes run: "create_lambda_layer env libraries layer_name runtime region_name upload
                  requirements_file w = (res, w')"
    and tr: "trace w' = trace w @ evs"
    and s: "Publish region request \<in> set evs"
  shows "\<exists>pre tail r t.
           evs = pre @ tail @ [Rmtree (path_of (tmp env)) (t = Inr ())]
         \<and> report_events env libraries layer_name runtime region_name upload (path_of (tmp env)) r tail
         \<and> Publish region request \<in> set tail
         \<and> res = (case t of Inl e \<Rightarrow> Inl e
                   | Inr u \<Rightarrow> (case r of Inl e \<Rightarrow> Inl e | Inr u \<Rightarrow> Inr None))"
proof -
  have "evs \<noteq> []"
    using s by auto
  then have "trace w' \<noteq> trace w"
    using tr by simp
  then obtain td w0 w1 r w2 t where
    m: "mkdtemp env w = (Inr td, w0)" and
    d: "os_makedirs env (os_path_join td ''python'') w0 = (Inr (), w1)" and
    b: "try_body env libraries layer_name runtime region_name upload requirements_file td
          (os_path_join td ''python'') w1 = (r, w2)" and
    c: "shutil_rmtree env td w2 = (t, w')" and
    res: "res = (case t of Inl e \<Rightarrow> Inl e
                 | Inr u \<Rightarrow> (case r of Inl e \<Rightarrow> Inl e | Inr u \<Rightarrow> Inr None))"
    using create_lambda_layer_cases [OF run] by (elim disjE exE conjE) simp_all
  note mi = mkdtemp_Inr [OF m]
  obtain ev0 where ev0: "trace w2 = trace w1 @ ev0"
    and be: "body_events env libraries layer_name runtime region_name upload td r ev0"
    using try_body_shape [OF b] by (elim exE conjE)
  have t1: "trace w1 = trace w"
    using makedirs_trace [OF d] mi(6) by simp
  have "trace w' = trace w @ ev0 @ [Rmtree td (t = Inr ())]"
    using rmtree_trace [OF c] ev0 t1 by simp
  then have evs: "evs = ev0 @ [Rmtree td (t = Inr ())]"
    using tr by simp
  then have s0: "Publish region request \<in> set ev0"
    using s by simp
  obtain pre tail where pt: "ev0 = pre @ tail"
    "report_events env libraries layer_name runtime region_name upload td r tail"
    "Publish region request \<in> set tail"
    using body_events_publish [OF be s0] by (elim exE conjE)
  have "evs = pre @ tail @ [Rmtree (path_of (tmp env)) (t = Inr ())]
         \<and> report_events env libraries layer_name runtime region_name upload (path_of (tmp env)) r tail
         \<and> Publish region request \<in> set tail
         \<and> res = (case t of Inl e \<Rightarrow> Inl e
                   | Inr u \<Rightarrow> (case r of Inl e \<Rightarrow> Inl e | Inr u \<Rightarrow> Inr None))"
    using evs pt res mi(1) by simp
  then show ?thesis
    by (intro exI [of _ pre] exI [of _ tail] exI [of _ r] exI [of _ t])
qed

lemma sublist_prepend: "sublist x y \<Longrightarrow> sublist x (p @ y)"
  unfolding sublist_def by (metis append.assoc)

lemma sublist_str_join: "x \<in> set xs \<Longrightarrow> sublist x (str_join s xs)"
proof (induction s xs rule: str_join.induct)
  case (1 s)
  then show ?case by simp
next
  case (2 s y)
  then show ?case by simp
next
  case (3 s y z zs)
  show ?case
  proof (cases "x = y")
    case True
    then show ?thesis by simp
  next
    case False
    then have "sublist x (str_join s (z # zs))"
      using 3 by simp
    then have "sublist x ((y @ s) @ str_join s (z # zs))"
      by (rule sublist_prepend)
    then show ?thesis by simp
  qed
qed

section \<open>Facts about the archive step\<close>


lemma is_dir_put_prefix:
  "is_dir (put r (p @ c # p') v) p = is_dir r p"
proof (induction p arbitrary: r)
  case Nil
  show ?case
  proof (cases r)
    case (File x)
    then show ?thesis by (simp add: is_dir_def)
  next
    case (Dir kids)
    then show ?thesis
      by (cases p') (simp_all add: is_dir_def split: option.splits)
  qed
next
  case (Cons a p)
  show ?case
  proof (cases r)
    case (File x)
    then show ?thesis by (simp add: is_dir_def)
  next
    case (Dir kids)
    obtain b bs where pc: "p @ c # p' = b # bs"
      by (cases "p @ c # p'") simp_all
    show ?thesis
      using Dir Cons.IH pc
      by (simp add: is_dir_def map_of_entries update_conv' split: option.splits)
  qed
qed




lemma zipfile_open_ok:
  assumes "list_all valid_name cs" "cs \<noteq> []" "is_dir (fs w) (butlast cs)" "\<not> is_dir (fs w) cs"
    and "fault env (ZipCreate (path_of cs)) (fs w) = None"
  shows "zipfile_open env (path_of cs) w
           = (Inr \<lparr>handle = cs, members = []\<rparr>,
              emit (ZipOpen (path_of cs) True) (w\<lparr>fs := put (fs w) cs (Some (File (ZipData [])))\<rparr>))"
  using assms
  by (auto simp: zipfile_open_def resolve_path_of_dirs is_dir_def split: option.splits node.splits)






lemma zf_write_handle:
  "zf_write env f a zf w = (Inr zf', w') \<Longrightarrow> handle zf' = handle zf"
  by (auto simp: zf_write_def split: option.splits node.splits)

lemma write_files_handle:
  "write_files env td root files zf w = (r, zf', w') \<Longrightarrow> handle zf' = handle zf"
proof (induction files arbitrary: zf w)
  case Nil
  then show ?case by simp
next
  case (Cons fl files)
  let ?full = "os_path_join root fl"
  let ?rel = "relpath (cwd env) ?full td"
  obtain r1 w1 where z: "zf_write env ?full ?rel zf w = (r1, w1)"
    by (cases "zf_write env ?full ?rel zf w")
  show ?case
  proof (cases r1)
    case (Inl e)
    then show ?thesis using Cons.prems z by (simp add: Let_def)
  next
    case (Inr zf1)
    then have "write_files env td root files zf1 w1 = (r, zf', w')"
      using Cons.prems z by (simp add: Let_def)
    then have "handle zf' = handle zf1"
      by (rule Cons.IH)
    then show ?thesis
      using zf_write_handle z Inr by simp
  qed
qed

lemma write_walk_handle:
  "write_walk env td walk zf w = (r, zf', w') \<Longrightarrow> handle zf' = handle zf"
proof (induction walk arbitrary: zf w)
  case Nil
  then show ?case by simp
next
  case (Cons x walk)
  obtain root dirs files where x: "x = (root, dirs, files)"
    by (cases x)
  obtain r1 zf1 w1 where f: "write_files env td root files zf w = (r1, zf1, w1)"
    by (cases "write_files env td root files zf w")
  have h1: "handle zf1 = handle zf"
    using f by (rule write_files_handle)
  show ?case
  proof (cases r1)
    case (Inl e)
    then show ?thesis using Cons.prems x f h1 by simp
  next
    case (Inr u)
    then have "write_walk env td walk zf1 w1 = (r, zf', w')"
      using Cons.prems x f by simp
    then have "handle zf' = handle zf1"
      by (rule Cons.IH)
    then show ?thesis using h1 by simp
  qed
qed

lemma zip_package_creates:
  assumes cs: "list_all valid_name cs" "cs \<noteq> []" and dir: "is_dir (fs w) (butlast cs)"
    and nd: "\<not> is_dir (fs w) cs"
    and nf: "fault env (ZipCreate (path_of cs)) (fs w) = None"
  shows "\<exists>r w' evs ms.
           zip_package env td pd (path_of cs) w = (r, w')
         \<and> trace w' = trace w @ ZipOpen (path_of cs) True # evs
         \<and> list_all is_Zip evs
         \<and> lookup (fs w') cs = Some (File (ZipData ms))"
proof -
  define r1 where "r1 = put (fs w) cs (Some (File (ZipData [])))"
  define w1 where "w1 = emit (ZipOpen (path_of cs) True) (w\<lparr>fs := r1\<rparr>)"
  define zf0 where "zf0 = \<lparr>handle = cs, members = []\<rparr>"
  have zo: "zipfile_open env (path_of cs) w = (Inr zf0, w1)"
    using zipfile_open_ok [OF cs dir nd nf] by (simp add: w1_def r1_def zf0_def)
  obtain r zf' w2 where ww: "write_walk env td (os_walk env (fs w1) pd) zf0 w1 = (r, zf', w2)"
    by (cases "write_walk env td (os_walk env (fs w1) pd) zf0 w1")
  obtain evs where f2: "fs w2 = fs w1" and e2: "trace w2 = trace w1 @ evs" "list_all is_Zip evs"
    using write_walk_trace [OF ww] by (elim exE conjE)
  have h: "handle zf' = cs"
    using write_walk_handle [OF ww] by (simp add: zf0_def)
  have bl: "cs = butlast cs @ [last cs]"
    using cs(2) by simp
  have d1: "is_dir r1 (butlast cs)"
    using is_dir_put_prefix [of "fs w" "butlast cs" "last cs" "[]"] dir cs(2)
    by (simp add: r1_def)
  have fs1: "fs w1 = r1"
    by (simp add: w1_def emit_def)
  have zp: "zip_package env td pd (path_of cs) w = (r, zipfile_close zf' w2)"
    by (simp add: zip_package_def zo ww)
  have l: "lookup (fs (zipfile_close zf' w2)) cs = Some (File (ZipData (members zf')))"
    using lookup_put_Some [OF cs d1, of "File (ZipData (members zf'))" "[]"]
    by (simp add: zipfile_close_def h f2 fs1)
  have t: "trace (zipfile_close zf' w2) = trace w @ ZipOpen (path_of cs) True # evs"
    using e2 by (simp add: zipfile_close_def w1_def emit_def)
  have "zip_package env td pd (path_of cs) w = (r, zipfile_close zf' w2)
         \<and> trace (zipfile_close zf' w2) = trace w @ ZipOpen (path_of cs) True # evs
         \<and> list_all is_Zip evs
         \<and> lookup (fs (zipfile_close zf' w2)) cs = Some (File (ZipData (members zf')))"
    using zp t e2(2) l by simp
  then show ?thesis
    by (intro exI)
qed

lemma upload_layer_fs:
  "upload_layer env libraries layer_name runtime region_name zip_file w = (r, w') \<Longrightarrow> fs w' = fs w"
  by (auto simp: upload_layer_def emit_def Let_def split: option.splits sum.splits)

lemma try_body_archives:
  assumes cs: "list_all valid_name cs" "cs \<noteq> []" and z: "valid_name z"
    and i: "(case libraries of
               Some (l # ls) \<Rightarrow> install_libraries env (l # ls) pd w1
             | _ \<Rightarrow> (Inr (), w1)) = (Inr (), wa)"
    and q: "(case requirements_file of
               Some (c # rest) \<Rightarrow> check_call env (''pip install -r '' @ (c # rest) @ '' -t '' @ pd) wa
             | _ \<Rightarrow> (Inr (), wa)) = (Inr (), wb)"
    and keep: "is_dir (fs wb) cs"
    and free: "\<not> is_dir (fs wb) (cs @ [z])"
    and nf: "fault env (ZipCreate (path_of (cs @ [z]))) (fs wb) = None"
    and ln: "os_path_join td (layer_name @ ''.zip'') = path_of (cs @ [z])"
  shows "\<exists>r w2 evs ms.
           try_body env libraries layer_name runtime region_name upload requirements_file td pd w1
             = (r, w2)
         \<and> trace w2 = trace wb @ ZipOpen (path_of (cs @ [z])) True # evs
         \<and> lookup (fs w2) (cs @ [z]) = Some (File (ZipData ms))"
proof -
  obtain r3 w3 evs ms where
    zp: "zip_package env td pd (path_of (cs @ [z])) wb = (r3, w3)" and
    t3: "trace w3 = trace wb @ ZipOpen (path_of (cs @ [z])) True # evs" and
    l3: "lookup (fs w3) (cs @ [z]) = Some (File (ZipData ms))"
    using zip_package_creates [of "cs @ [z]" wb env td pd] cs z keep free nf
    by (simp, elim exE conjE)
  obtain r4 w4 where rp: "(if upload
        then upload_layer env libraries layer_name runtime region_name (path_of (cs @ [z])) w3
        else (Inr (), emit (Print (''Lambda layer package created at: '' @ path_of (cs @ [z]))) w3))
       = (r4, w4)"
    by (cases "if upload
        then upload_layer env libraries layer_name runtime region_name (path_of (cs @ [z])) w3
        else (Inr (), emit (Print (''Lambda layer package created at: '' @ path_of (cs @ [z]))) w3)")
  have f4: "fs w4 = fs w3"
    using rp upload_layer_fs by (cases upload) (auto simp: emit_def)
  obtain tail where t4: "trace w4 = trace w3 @ tail"
  proof (cases upload)
    case True
    then have "upload_layer env libraries layer_name runtime region_name (path_of (cs @ [z])) w3
                 = (r4, w4)"
      using rp by simp
    then have "\<exists>tail. trace w4 = trace w3 @ tail
           \<and> report_events env libraries layer_name runtime region_name True td r4 tail"
      by (rule upload_layer_shape)
    then show ?thesis using that by blast
  next
    case False
    then have "trace w4 = trace w3 @ [Print (''Lambda layer package created at: '' @ path_of (cs @ [z]))]"
      using rp by (auto simp: emit_def)
    then show ?thesis using that by blast
  qed
  define r where "r = (case r3 of Inl e \<Rightarrow> Inl e | Inr u \<Rightarrow> r4)"
  define w2 where "w2 = (case r3 of Inl e \<Rightarrow> w3 | Inr u \<Rightarrow> w4)"
  define evs2 where "evs2 = (case r3 of Inl e \<Rightarrow> evs | Inr u \<Rightarrow> evs @ tail)"
  have tb: "try_body env libraries layer_name runtime region_name upload requirements_file td pd w1
             = (r, w2)"
    using zp rp
    by (cases r3) (simp_all add: try_body_def i q ln Let_def r_def w2_def)
  have t2: "trace w2 = trace wb @ ZipOpen (path_of (cs @ [z])) True # evs2"
    using t3 t4 by (cases r3) (simp_all add: w2_def evs2_def)
  have l2: "lookup (fs w2) (cs @ [z]) = Some (File (ZipData ms))"
    using l3 f4 by (cases r3) (simp_all add: w2_def)
  have "try_body env libraries layer_name runtime region_name upload requirements_file td pd w1
             = (r, w2)
         \<and> trace w2 = trace wb @ ZipOpen (path_of (cs @ [z])) True # evs2
         \<and> lookup (fs w2) (cs @ [z]) = Some (File (ZipData ms))"
    using tb t2 l2 by simp
  then show ?thesis
    by (intro exI)
qed

section \<open>Teardown\<close>




section \<open>A failing install\<close>






section \<open>What the publish call receives\<close>

text \<open>
  C6. In a run with upload enabled, the publish call receives as description the text
  \<open>Lambda layer for\<close> followed by the requested library names joined by a comma and a
  space, so every requested name occurs in it, when the library list is not empty; when no
  library is named (the list is omitted or empty) it receives the fixed description
  \<open>Lambda layer for multiple libraries\<close>. It also receives the layer name and the
  runtime as given, and the client is made for the region given.
\<close>

theorem publish_description:
  assumes "create_lambda_layer env libraries layer_name runtime region_name True requirements_file w
             = (res, w')"
    and "trace w' = trace w @ evs"
    and "Publish region request \<in> set evs"
  shows "(case libraries of
            Some (l # ls) \<Rightarrow>
              Description request = ''Lambda layer for '' @ str_join '', '' (l # ls)
              \<and> (\<forall>x \<in> set (l # ls). sublist x (Description request))
          | _ \<Rightarrow> Description request = ''Lambda layer for multiple libraries'')
       \<and> LayerName request = layer_name \<and> CompatibleRuntimes request = [runtime]
       \<and> region = region_name"
proof -
  obtain pre tail r t where
    "report_events env libraries layer_name runtime region_name True (path_of (tmp env)) r tail"
    "Publish region request \<in> set tail"
    using run_publish [OF assms] by (elim exE conjE)
  then have d: "Description request = description libraries"
    and rest: "LayerName request = layer_name \<and> CompatibleRuntimes request = [runtime]
       \<and> region = region_name"
    using report_events_publish by blast+
  have "case libraries of
            Some (l # ls) \<Rightarrow>
              Description request = ''Lambda layer for '' @ str_join '', '' (l # ls)
              \<and> (\<forall>x \<in> set (l # ls). sublist x (Description request))
          | _ \<Rightarrow> Description request = ''Lambda layer for multiple libraries''"
  proof (cases "\<exists>l ls. libraries = Some (l # ls)")
    case True
    then obtain l ls where l: "libraries = Some (l # ls)" by blast
    have e: "Description request = ''Lambda layer for '' @ str_join '', '' (l # ls)"
      using d l by (simp add: description_def)
    have "sublist x (Description request)" if "x \<in> set (l # ls)" for x
    proof -
      have "sublist x (str_join '', '' (l # ls))"
        using that by (rule sublist_str_join)
      then show ?thesis
        unfolding e by (rule sublist_prepend)
    qed
    then show ?thesis
      using e l by simp
  next
    case False
    then show ?thesis
      using d by (auto simp: description_def split: option.splits list.splits)
  qed
  then show ?thesis
    using rest by simp
qed

theorem publish_description_witness:
  "trace (snd (create_lambda_layer demo_env (Some [''six'', ''--help'']) ''lay'' ''python3.10''
                 ''us-east-1'' True None demo_world))
     = trace demo_world @ demo_upload_trace
   \<and> Publish ''us-east-1'' demo_request \<in> set demo_upload_trace
   \<and> Description demo_request = ''Lambda layer for '' @ str_join '', '' [''six'', ''--help'']
   \<and> sublist ''six'' (Description demo_request)
   \<and> sublist ''--help'' (Description demo_request)
   \<and> LayerName demo_request = ''lay''
   \<and> CompatibleRuntimes demo_request = [''python3.10'']"
proof -
  let ?run = "create_lambda_layer demo_env (Some [''six'', ''--help'']) ''lay'' ''python3.10''
                 ''us-east-1'' True None demo_world"
  have tr: "trace (snd ?run) = trace demo_world @ demo_upload_trace"
    by code_simp
  have s: "Publish ''us-east-1'' demo_request \<in> set demo_upload_trace"
    by (simp add: demo_upload_trace_def)
  have "(case Some [''six'', ''--help''] of
            Some (l # ls) \<Rightarrow>
              Description demo_request = ''Lambda layer for '' @ str_join '', '' (l # ls)
              \<and> (\<forall>x \<in> set (l # ls). sublist x (Description demo_request))
          | _ \<Rightarrow> Description demo_request = ''Lambda layer for multiple libraries'')
       \<and> LayerName demo_request = ''lay'' \<and> CompatibleRuntimes demo_request = [''python3.10'']
       \<and> ''us-east-1'' = ''us-east-1''"
    by (rule publish_description [OF surjective_pairing tr s])
  then have d: "Description demo_request = ''Lambda layer for '' @ str_join '', '' [''six'', ''--help'']
       \<and> sublist ''six'' (Description demo_request)
       \<and> sublist ''--help'' (Description demo_request)
       \<and> LayerName demo_request = ''lay''
       \<and> CompatibleRuntimes demo_request = [''python3.10'']"
    by auto
  show ?thesis
    by (rule conjI [OF tr conjI [OF s d]])
qed

section \<open>What becomes of the provider's response\<close>




section \<open>Nothing to install\<close>




section \<open>The empty layer name\<close>

text \<open>
  C9. The function does not look at the layer name before it uses it: called with the
  empty name, once the workspace is made and the install steps have returned normally and
  left the workspace in place, it opens the archive at the path \<open>.zip\<close> in the workspace,
  the archive is a file there when the body of the \<open>try\<close> statement ends, and the
  teardown follows. A command line without \<open>--layer-name\<close> is refused by the parser
  with exit status 2, before the function is called.
\<close>

theorem empty_layer_name_accepted:
  assumes m: "mkdtemp env w = (Inr td, w0)"
    and d: "os_makedirs env (os_path_join td ''python'') w0 = (Inr (), w1)"
    and i: "(case libraries of
               Some (l # ls) \<Rightarrow> install_libraries env (l # ls) (os_path_join td ''python'') w1
             | _ \<Rightarrow> (Inr (), w1)) = (Inr (), wa)"
    and q: "(case requirements_file of
               Some (c # rest) \<Rightarrow>
                 check_call env (''pip install -r '' @ (c # rest) @ '' -t ''
                                 @ os_path_join td ''python'') wa
             | _ \<Rightarrow> (Inr (), wa)) = (Inr (), wb)"
    and keep: "is_dir (fs wb) (tmp env)"
    and free: "\<not> is_dir (fs wb) (tmp env @ [''.zip''])"
    and nf: "fault env (ZipCreate (os_path_join td ''.zip'')) (fs wb) = None"
  shows "\<exists>r w2 evs ms res w' ok.
           try_body env libraries [] runtime region_name upload requirements_file td
             (os_path_join td ''python'') w1 = (r, w2)
         \<and> os_path_join td ([] @ ''.zip'') = path_of (tmp env @ [''.zip''])
         \<and> trace w2 = trace wb @ ZipOpen (path_of (tmp env @ [''.zip''])) True # evs
         \<and> lookup (fs w2) (tmp env @ [''.zip'']) = Some (File (ZipData ms))
         \<and> create_lambda_layer env libraries [] runtime region_name upload requirements_file w
             = (res, w')
         \<and> trace w' = trace w2 @ [Rmtree td ok]
         \<and> main env (argv\<lparr>opt_layer_name := None\<rparr>) w = (Inl (SystemExit 2), w)"
proof -
  note mi = mkdtemp_Inr [OF m]
  have vz: "valid_name ''.zip''"
    using valid_zip_name [of "[]"] by simp
  have ln: "os_path_join td ([] @ ''.zip'') = path_of (tmp env @ [''.zip''])"
    using mi vz by (simp add: join_path_of)
  have nf': "fault env (ZipCreate (path_of (tmp env @ [''.zip'']))) (fs wb) = None"
    using nf ln by simp
  have "\<exists>r w2 evs ms.
           try_body env libraries [] runtime region_name upload requirements_file td
             (os_path_join td ''python'') w1 = (r, w2)
         \<and> trace w2 = trace wb @ ZipOpen (path_of (tmp env @ [''.zip''])) True # evs
         \<and> lookup (fs w2) (tmp env @ [''.zip'']) = Some (File (ZipData ms))"
    by (rule try_body_archives [OF mi(3) mi(2) vz i q keep free nf' ln])
  then obtain r w2 evs ms where
    tb: "try_body env libraries [] runtime region_name upload requirements_file td
           (os_path_join td ''python'') w1 = (r, w2)" and
    t2: "trace w2 = trace wb @ ZipOpen (path_of (tmp env @ [''.zip''])) True # evs" and
    l2: "lookup (fs w2) (tmp env @ [''.zip'']) = Some (File (ZipData ms))"
    by (elim exE conjE)
  obtain t w' where rm: "shutil_rmtree env td w2 = (t, w')"
    by (cases "shutil_rmtree env td w2")
  define res :: "error + response option" where
    "res = (case t of Inl e \<Rightarrow> Inl e | Inr u \<Rightarrow> (case r of Inl e \<Rightarrow> Inl e | Inr u \<Rightarrow> Inr None))"
  have run: "create_lambda_layer env libraries [] runtime region_name upload requirements_file w
               = (res, w')"
    by (simp add: create_lambda_layer_def m d tb rm res_def split: sum.splits)
  have t': "trace w' = trace w2 @ [Rmtree td (t = Inr ())]"
    using rm by (rule rmtree_trace)
  have mn: "main env (argv\<lparr>opt_layer_name := None\<rparr>) w = (Inl (SystemExit 2), w)"
    by (simp add: main_def parse_args_def)
  have "try_body env libraries [] runtime region_name upload requirements_file td
             (os_path_join td ''python'') w1 = (r, w2)
         \<and> os_path_join td ([] @ ''.zip'') = path_of (tmp env @ [''.zip''])
         \<and> trace w2 = trace wb @ ZipOpen (path_of (tmp env @ [''.zip''])) True # evs
         \<and> lookup (fs w2) (tmp env @ [''.zip'']) = Some (File (ZipData ms))
         \<and> create_lambda_layer env libraries [] runtime region_name upload requirements_file w
             = (res, w')
         \<and> trace w' = trace w2 @ [Rmtree td (t = Inr ())]
         \<and> main env (argv\<lparr>opt_layer_name := None\<rparr>) w = (Inl (SystemExit 2), w)"
    using tb ln t2 l2 run t' mn by simp
  then show ?thesis
    by (intro exI)
qed

theorem empty_layer_name_accepted_witness:
  "mkdtemp demo_env demo_world = (Inr ''/tmp/ws'', demo_w0)
   \<and> os_makedirs demo_env (os_path_join ''/tmp/ws'' ''python'') demo_w0 = (Inr (), demo_w1)
   \<and> install_libraries demo_env [''six''] (os_path_join ''/tmp/ws'' ''python'') demo_w1
       = (Inr (), demo_wa)
   \<and> is_dir (fs demo_wa) (tmp demo_env)
   \<and> \<not> is_dir (fs demo_wa) (tmp demo_env @ [''.zip''])
   \<and> trace (snd (try_body demo_env (Some [''six'']) [] ''python3.10'' ''us-east-1'' False None
                   ''/tmp/ws'' (os_path_join ''/tmp/ws'' ''python'') demo_w1)) ! 1
       = ZipOpen ''/tmp/ws/.zip'' True
   \<and> lookup (fs (snd (try_body demo_env (Some [''six'']) [] ''python3.10'' ''us-east-1'' False None
                   ''/tmp/ws'' (os_path_join ''/tmp/ws'' ''python'') demo_w1))) [''tmp'', ''ws'', ''.zip'']
       = Some (File (ZipData [(''python/six.py'', Bytes ''import sys''),
                              (''python/six.dist-info/METADATA'', Bytes ''Name: six'')]))
   \<and> main demo_env (demo_argv\<lparr>opt_layer_name := None\<rparr>) demo_world
       = (Inl (SystemExit 2), demo_world)"
proof -
  let ?tb = "try_body demo_env (Some [''six'']) [] ''python3.10'' ''us-east-1'' False None
                   ''/tmp/ws'' (os_path_join ''/tmp/ws'' ''python'') demo_w1"
  have m: "mkdtemp demo_env demo_world = (Inr ''/tmp/ws'', demo_w0)"
    by code_simp
  have d: "os_makedirs demo_env (os_path_join ''/tmp/ws'' ''python'') demo_w0 = (Inr (), demo_w1)"
    by code_simp
  have i0: "install_libraries demo_env [''six''] (os_path_join ''/tmp/ws'' ''python'') demo_w1
       = (Inr (), demo_wa)"
    by code_simp
  have i: "(case Some [''six''] of
               Some (l # ls) \<Rightarrow> install_libraries demo_env (l # ls) (os_path_join ''/tmp/ws'' ''python'') demo_w1
             | _ \<Rightarrow> (Inr (), demo_w1)) = (Inr (), demo_wa)"
    using i0 by simp
  have q: "(case (None :: string option) of
               Some (c # rest) \<Rightarrow>
                 check_call demo_env (''pip install -r '' @ (c # rest) @ '' -t ''
                                 @ os_path_join ''/tmp/ws'' ''python'') demo_wa
             | _ \<Rightarrow> (Inr (), demo_wa)) = (Inr (), demo_wa)"
    by simp
  have keep: "is_dir (fs demo_wa) (tmp demo_env)"
    by code_simp
  have free: "\<not> is_dir (fs demo_wa) (tmp demo_env @ [''.zip''])"
    by code_simp
  have nf: "fault demo_env (ZipCreate (os_path_join ''/tmp/ws'' ''.zip'')) (fs demo_wa) = None"
    by (simp add: demo_env_def)
  have "\<exists>r w2 evs ms res w' ok.
           ?tb = (r, w2)
         \<and> os_path_join ''/tmp/ws'' ([] @ ''.zip'') = path_of (tmp demo_env @ [''.zip''])
         \<and> trace w2 = trace demo_wa @ ZipOpen (path_of (tmp demo_env @ [''.zip''])) True # evs
         \<and> lookup (fs w2) (tmp demo_env @ [''.zip'']) = Some (File (ZipData ms))
         \<and> create_lambda_layer demo_env (Some [''six'']) [] ''python3.10'' ''us-east-1'' False None
             demo_world = (res, w')
         \<and> trace w' = trace w2 @ [Rmtree ''/tmp/ws'' ok]
         \<and> main demo_env (demo_argv\<lparr>opt_layer_name := None\<rparr>) demo_world
             = (Inl (SystemExit 2), demo_world)"
    by (rule empty_layer_name_accepted [OF m d i q keep free nf])
  then obtain r w2 evs where
    tb: "?tb = (r, w2)" and
    t2: "trace w2 = trace demo_wa @ ZipOpen (path_of (tmp demo_env @ [''.zip''])) True # evs" and
    mn: "main demo_env (demo_argv\<lparr>opt_layer_name := None\<rparr>) demo_world
             = (Inl (SystemExit 2), demo_world)"
    by (elim exE conjE)
  have p: "path_of (tmp demo_env @ [''.zip'']) = ''/tmp/ws/.zip''"
    by code_simp
  have "trace (snd ?tb) = trace demo_wa @ ZipOpen ''/tmp/ws/.zip'' True # evs"
    using tb t2 p by simp
  then have z: "trace (snd ?tb) ! 1 = ZipOpen ''/tmp/ws/.zip'' True"
    by (simp add: demo_wa_def)
  have l: "lookup (fs (snd ?tb)) [''tmp'', ''ws'', ''.zip'']
       = Some (File (ZipData [(''python/six.py'', Bytes ''import sys''),
                              (''python/six.dist-info/METADATA'', Bytes ''Name: six'')]))"
    by code_simp
  show ?thesis
    by (intro conjI m d i0 keep free z l mn)
qed

section \<open>The region is read on the upload branch only\<close>

text \<open>
  C10. When upload is disabled the region argument has no effect: two calls that differ
  only in the region, both with upload off, give the same outcome, the same file system
  and the same sequence of calls and printed lines.
\<close>

theorem region_unused_without_upload:
  "create_lambda_layer env libraries layer_name runtime region_name False requirements_file w
   = create_lambda_layer env libraries layer_name runtime region_name' False requirements_file w"
proof -
  have h: "try_body env libraries layer_name runtime region_name False requirements_file td pd w1
      = try_body env libraries layer_name runtime region_name' False requirements_file td pd w1"
    for td pd w1
    by (simp add: try_body_def Let_def cong: prod.case_cong sum.case_cong)
  show ?thesis
    unfolding create_lambda_layer_def h [of _ _ _] ..
qed

theorem region_unused_without_upload_witness:
  "create_lambda_layer demo_env (Some [''six'']) ''lay'' ''python3.10'' ''us-east-1'' False None demo_world
   = create_lambda_layer demo_env (Some [''six'']) ''lay'' ''python3.10'' ''eu-west-1'' False None demo_world"
  by (rule region_unused_without_upload)

end
